theory Spec2Isabelle
  imports Complex_Main
begin

section \<open>JavaScript values used by the handlers\<close>

text \<open>
  Response bodies are JSON documents. An object is an association list, in the order the
  source writes its keys; a key whose value is \<open>undefined\<close> is dropped, as
  \<open>JSON.stringify\<close> does.
\<close>

datatype json =
    JNull
  | JBool bool
  | JNum int
  | JStr string
  | JArr "json list"
  | JObj "(string \<times> json) list"

text \<open>\<open>has_field k j\<close>: some object inside \<open>j\<close>, at any depth, has the key \<open>k\<close>.\<close>

fun has_field :: "string \<Rightarrow> json \<Rightarrow> bool"
  and has_field_elems :: "string \<Rightarrow> json list \<Rightarrow> bool"
  and has_field_members :: "string \<Rightarrow> (string \<times> json) list \<Rightarrow> bool" where
  "has_field k JNull = False"
| "has_field k (JBool b) = False"
| "has_field k (JNum n) = False"
| "has_field k (JStr s) = False"
| "has_field k (JArr xs) = has_field_elems k xs"
| "has_field k (JObj kvs) = has_field_members k kvs"
| "has_field_elems k [] = False"
| "has_field_elems k (x # xs) = (has_field k x \<or> has_field_elems k xs)"
| "has_field_members k [] = False"
| "has_field_members k (kv # kvs) =
     (fst kv = k \<or> has_field k (snd kv) \<or> has_field_members k kvs)"

text \<open>
  A value that is a string or \<open>undefined\<close>/\<open>null\<close> is a \<open>string option\<close>.
  \<open>truthy\<close> is JavaScript's truthiness on such a value: \<open>undefined\<close> and the empty
  string are falsy. \<open>js_or\<close> is \<open>a || b\<close>.
\<close>

fun truthy :: "string option \<Rightarrow> bool" where
  "truthy None = False"
| "truthy (Some s) = (s \<noteq> [])"

definition js_or :: "string option \<Rightarrow> string option \<Rightarrow> string option" where
  "js_or a b = (if truthy a then a else b)"

text \<open>String concatenation turns \<open>undefined\<close> into the text \<open>undefined\<close>.\<close>

fun js_str :: "string option \<Rightarrow> string" where
  "js_str None = ''undefined''"
| "js_str (Some s) = s"

text \<open>\<open>s.split(c)\<close> for a one-character separator: never empty, \<open>"".split(" ") = [""]\<close>.\<close>

fun split :: "char \<Rightarrow> string \<Rightarrow> string list" where
  "split c [] = [[]]"
| "split c (x # xs) =
     (if x = c then [] # split c xs
      else (x # hd (split c xs)) # tl (split c xs))"

text \<open>\<open>xs[i]\<close>: \<open>undefined\<close> out of range.\<close>

fun index :: "'a list \<Rightarrow> nat \<Rightarrow> 'a option" where
  "index [] i = None"
| "index (x # xs) 0 = Some x"
| "index (x # xs) (Suc i) = index xs i"

text \<open>
  \<open>toLowerCase\<close> and \<open>trim\<close> on the ASCII range (strings are byte lists here; the
  JavaScript functions also treat non-ASCII letters and spaces).
\<close>

definition toLowerCase :: "string \<Rightarrow> string" where
  "toLowerCase s =
     map (\<lambda>c. case map_of (zip ''ABCDEFGHIJKLMNOPQRSTUVWXYZ'' ''abcdefghijklmnopqrstuvwxyz'') c of
                 Some l \<Rightarrow> l | None \<Rightarrow> c) s"

definition is_space :: "char \<Rightarrow> bool" where
  "is_space c = (c \<in> set [CHR '' '', CHR 0x09, CHR 0x0A, CHR 0x0B, CHR 0x0C, CHR 0x0D])"

definition trim :: "string \<Rightarrow> string" where
  "trim s = rev (dropWhile is_space (rev (dropWhile is_space s)))"

text \<open>
  A JavaScript number, as far as the handlers compute with one: \<open>NaN\<close>, an infinity, or
  an integer that a double holds exactly (the two zeros are not told apart: nothing here
  divides by zero, and JSON writes both as \<open>0\<close>). \<open>to_double n\<close> is the double nearest to
  the integer \<open>n\<close>: every integer up to \<open>2^53\<close> in magnitude is a double; above, the
  integer is rounded to 53 significant bits, ties to the even one, and from \<open>2^1024\<close> on
  it is an infinity.\<close>

datatype number = NaN | NegInf | Fin int | PosInf

text \<open>The integer nearest to \<open>a / b\<close> for \<open>b > 0\<close>, ties to the even one.\<close>

definition round_even :: "int \<Rightarrow> int \<Rightarrow> int" where
  "round_even a b =
     (let q = a div b; r = a mod b
      in if 2 * r < b then q else if b < 2 * r then q + 1 else if even q then q else q + 1)"

fun bit_length :: "nat \<Rightarrow> nat" where
  "bit_length n = (if n = 0 then 0 else Suc (bit_length (n div 2)))"

declare bit_length.simps [simp del]

definition to_double :: "int \<Rightarrow> number" where
  "to_double n =
     (if \<bar>n\<bar> \<le> 2 ^ 53 then Fin n
      else
        let q = 2 ^ (bit_length (nat \<bar>n\<bar>) - 53); v = round_even \<bar>n\<bar> q * q
        in if 2 ^ 1024 \<le> v then (if n < 0 then NegInf else PosInf) else Fin (sgn n * v))"

fun js_neg :: "number \<Rightarrow> number" where
  "js_neg NaN = NaN"
| "js_neg NegInf = PosInf"
| "js_neg (Fin n) = Fin (- n)"
| "js_neg PosInf = NegInf"

text \<open>\<open>a + b\<close>, \<open>a - b\<close> and \<open>a * b\<close>: the exact result, rounded to a double.\<close>

fun js_add :: "number \<Rightarrow> number \<Rightarrow> number" where
  "js_add (Fin a) (Fin b) = to_double (a + b)"
| "js_add NaN y = NaN"
| "js_add x NaN = NaN"
| "js_add PosInf NegInf = NaN"
| "js_add NegInf PosInf = NaN"
| "js_add PosInf y = PosInf"
| "js_add x PosInf = PosInf"
| "js_add NegInf y = NegInf"
| "js_add x NegInf = NegInf"

definition js_sub :: "number \<Rightarrow> number \<Rightarrow> number" where
  "js_sub a b = js_add a (js_neg b)"

fun sign_of :: "number \<Rightarrow> int" where
  "sign_of NaN = 0"
| "sign_of NegInf = - 1"
| "sign_of (Fin n) = sgn n"
| "sign_of PosInf = 1"

fun js_mul :: "number \<Rightarrow> number \<Rightarrow> number" where
  "js_mul (Fin a) (Fin b) = to_double (a * b)"
| "js_mul NaN y = NaN"
| "js_mul x NaN = NaN"
| "js_mul x y =
     (if sign_of x * sign_of y = 0 then NaN
      else if 0 < sign_of x * sign_of y then PosInf else NegInf)"

text \<open>\<open>a < b\<close> and \<open>Math.min(a, b)\<close>.\<close>

fun js_lt :: "number \<Rightarrow> number \<Rightarrow> bool" where
  "js_lt NaN y = False"
| "js_lt x NaN = False"
| "js_lt (Fin a) (Fin b) = (a < b)"
| "js_lt NegInf NegInf = False"
| "js_lt NegInf y = True"
| "js_lt x NegInf = False"
| "js_lt PosInf y = False"
| "js_lt x PosInf = True"

definition math_min :: "number \<Rightarrow> number \<Rightarrow> number" where
  "math_min a b = (if a = NaN \<or> b = NaN then NaN else if js_lt a b then a else b)"

text \<open>
  \<open>Math.ceil(a / b)\<close> for integers \<open>a\<close> and \<open>b \<noteq> 0\<close> held by doubles. The quotient is
  rounded to a double first: with \<open>2^k \<le> |a / b| < 2^(k+1)\<close> it is \<open>m * 2^e\<close>, where
  \<open>e = k - 52\<close> (not below \<open>-1074\<close>) and \<open>m\<close> is \<open>|a / b| / 2^e\<close> rounded to an integer,
  ties to even. Its ceiling is the result.\<close>

definition ceil_quot :: "int \<Rightarrow> int \<Rightarrow> int" where
  "ceil_quot a b =
     (if a = 0 then 0
      else
        let d = int (bit_length (nat \<bar>a\<bar>)) - int (bit_length (nat \<bar>b\<bar>));
            k = (if \<bar>b\<bar> * 2 ^ nat d \<le> \<bar>a\<bar> * 2 ^ nat (- d) then d else d - 1);
            e = max (k - 52) (- 1074);
            m = round_even (\<bar>a\<bar> * 2 ^ nat (- e)) (\<bar>b\<bar> * 2 ^ nat e)
        in - ((- (sgn a * sgn b * m * 2 ^ nat e)) div 2 ^ nat (- e)))"

fun ceil_div :: "number \<Rightarrow> number \<Rightarrow> number" where
  "ceil_div NaN y = NaN"
| "ceil_div x NaN = NaN"
| "ceil_div (Fin a) (Fin b) =
     (if b = 0 then (if a = 0 then NaN else if 0 < a then PosInf else NegInf)
      else Fin (ceil_quot a b))"
| "ceil_div (Fin a) y = Fin 0"
| "ceil_div x (Fin b) =
     (if 0 \<le> sign_of x * sgn b then x else js_neg x)"
| "ceil_div x y = NaN"

text \<open>\<open>n || d\<close> on a number: \<open>NaN\<close> and \<open>0\<close> are falsy.\<close>

definition num_or :: "number \<Rightarrow> number \<Rightarrow> number" where
  "num_or n d = (if n = NaN \<or> n = Fin 0 then d else n)"

text \<open>A number in a JSON body: \<open>NaN\<close> and the infinities are written \<open>null\<close>.\<close>

fun num_json :: "number \<Rightarrow> json" where
  "num_json (Fin n) = JNum n"
| "num_json x = JNull"

section \<open>Data model\<close>

text \<open>A row of the \<open>Users\<close> table; \<open>password\<close> is null for OAuth-only accounts.\<close>

record user =
  u_id :: int
  u_name :: string
  u_email :: string
  u_password :: "string option"
  u_profile_picture :: "string option"
  u_created_at :: string

text \<open>The object given to \<open>from("Users").insert([...])\<close>.\<close>

record new_user =
  nu_name :: string
  nu_email :: string
  nu_password :: "string option"

text \<open>The embedded \<open>Users (id, name, email)\<close> of the post listing.\<close>

record author =
  a_id :: int
  a_name :: string
  a_email :: string

text \<open>
  A row of the \<open>Posts\<close> table. \<open>p_author\<close> is the embedded user of the listing's
  select: \<open>None\<close> where the select has no embedding, \<open>Some None\<close> for a null embedding.\<close>

record post =
  p_id :: int
  p_title :: string
  p_body :: string
  p_user_id :: int
  p_created_at :: string
  p_author :: "author option option"

text \<open>The error object of the store client.\<close>

record db_error =
  e_code :: string
  e_message :: string
  e_details :: string
  e_hint :: string

text \<open>What an awaited store query resolves to: \<open>{ data, error }\<close> (and \<open>count\<close>).\<close>

record 'a db_result =
  data :: "'a option"
  error :: "db_error option"

record posts_result =
  rows :: "post list option"
  rcount :: "int option"
  rerror :: "db_error option"

text \<open>The decoded session token: the payload signed by \<open>generateTokenAndSetCookie\<close>.\<close>

record claims =
  c_id :: int
  c_email :: string

datatype js_error =
    Error string
  | TypeError string
  | JsonWebTokenError string
  | PostgrestError db_error
  | ERR_HTTP_HEADERS_SENT

fun err_message :: "js_error \<Rightarrow> string" where
  "err_message (Error m) = m"
| "err_message (TypeError m) = m"
| "err_message (JsonWebTokenError m) = m"
| "err_message (PostgrestError e) = e_message e"
| "err_message ERR_HTTP_HEADERS_SENT = ''Cannot set headers after they are sent to the client''"

text \<open>The store queries the handlers issue, as logged values.\<close>

datatype query =
    UsersByEmail string
  | UsersById int
  | UsersInsert new_user
  | PostsRange "string option" number number
  | PostsInsert string string int
  | PostsUpdate string string string int
  | PostsDelete string int
  | PostsDeleteSelect string int

text \<open>
  The store is an external service (\<open>db.js\<close> only creates its client), so the handlers
  are modelled over any store: a state \<open>'s\<close> and one function per query shape the source
  issues. Each takes the store's state and returns the awaited result and the new state.
\<close>

record 's store =
  users_by_email :: "string \<Rightarrow> 's \<Rightarrow> user db_result \<times> 's"
  users_by_id :: "int \<Rightarrow> 's \<Rightarrow> user db_result \<times> 's"
  users_insert :: "new_user \<Rightarrow> 's \<Rightarrow> user db_result \<times> 's"
  posts_range :: "string option \<Rightarrow> number \<Rightarrow> number \<Rightarrow> 's \<Rightarrow> posts_result \<times> 's"
  posts_insert :: "string \<Rightarrow> string \<Rightarrow> int \<Rightarrow> 's \<Rightarrow> post db_result \<times> 's"
  posts_update :: "string \<Rightarrow> string \<Rightarrow> string \<Rightarrow> int \<Rightarrow> 's \<Rightarrow> post db_result \<times> 's"
  posts_delete :: "string \<Rightarrow> int \<Rightarrow> 's \<Rightarrow> post db_result \<times> 's"
  posts_delete_select :: "string \<Rightarrow> int \<Rightarrow> 's \<Rightarrow> post db_result \<times> 's"

text \<open>
  The process environment and the two libraries: \<open>jwt.verify\<close> throws or returns the
  payload, \<open>jwt.sign\<close> returns the token, \<open>bcrypt.hash\<close> and \<open>bcrypt.compare\<close>.\<close>

record env =
  COOKIE_NAME :: string
  production :: bool
  jwt_verify :: "string \<Rightarrow> js_error + claims"
  jwt_sign :: "claims \<Rightarrow> string"
  bcrypt_hash :: "string \<Rightarrow> string"
  bcrypt_compare :: "string \<Rightarrow> string \<Rightarrow> bool"

text \<open>
  The request: the \<open>authorization\<close> header, the parsed cookies, the route parameter
  \<open>id\<close>, the query string and the JSON body's fields (strings where present).\<close>

record request =
  authorization :: "string option"
  cookies :: "(string \<times> string) list option"
  param_id :: string
  q_page :: "string option"
  q_limit :: "string option"
  q_search :: "string option"
  b_name :: "string option"
  b_email :: "string option"
  b_password :: "string option"
  b_title :: "string option"
  b_body :: "string option"

record cookie =
  ck_name :: string
  ck_value :: string
  ck_httpOnly :: bool
  ck_sameSite :: string
  ck_secure :: bool

section \<open>Handler state, exceptions and the response object\<close>

text \<open>
  A handler runs on the store's state and the response object. \<open>replies\<close> lists every
  \<open>res.status(c).json(b)\<close> the handler executes, in order; the first one is what the
  client receives. \<open>raised\<close> lists every exception raised while the handler runs.\<close>

record 's hstate =
  db :: 's
  queries :: "query list"
  replies :: "(nat \<times> json) list"
  set_cookies :: "cookie list"
  raised :: "js_error list"

type_synonym ('s, 'a) io = "'s hstate \<Rightarrow> (js_error + 'a) \<times> 's hstate"

definition start :: "'s \<Rightarrow> 's hstate" where
  "start s = \<lparr>db = s, queries = [], replies = [], set_cookies = [], raised = []\<rparr>"

definition ok :: "'a \<Rightarrow> ('s, 'a) io" where
  "ok x h = (Inr x, h)"

definition throw :: "js_error \<Rightarrow> ('s, 'a) io" where
  "throw e h = (Inl e, h\<lparr>raised := raised h @ [e]\<rparr>)"

definition and_then :: "('s, 'a) io \<Rightarrow> ('a \<Rightarrow> ('s, 'b) io) \<Rightarrow> ('s, 'b) io" where
  "and_then m f h = (case m h of (Inl e, h') \<Rightarrow> (Inl e, h') | (Inr x, h') \<Rightarrow> f x h')"

definition try_catch :: "('s, 'a) io \<Rightarrow> (js_error \<Rightarrow> ('s, 'a) io) \<Rightarrow> ('s, 'a) io" where
  "try_catch m c h = (case m h of (Inl e, h') \<Rightarrow> c e h' | (Inr x, h') \<Rightarrow> (Inr x, h'))"

text \<open>
  \<open>res.status(c).json(b)\<close>. Express sends the first one; on a response whose headers
  are already sent, \<open>json\<close> throws \<open>ERR_HTTP_HEADERS_SENT\<close>.\<close>

definition status_json :: "nat \<Rightarrow> json \<Rightarrow> ('s, unit) io" where
  "status_json c b h =
     (if replies h = [] then ok () (h\<lparr>replies := [(c, b)]\<rparr>)
      else throw ERR_HTTP_HEADERS_SENT (h\<lparr>replies := replies h @ [(c, b)]\<rparr>))"

text \<open>The response the client receives.\<close>

definition delivered :: "'s hstate \<Rightarrow> (nat \<times> json) option" where
  "delivered h = index (replies h) 0"

definition message :: "string \<Rightarrow> json" where
  "message m = JObj [(''message'', JStr m)]"

text \<open>An awaited store query: logged, then answered by the store.\<close>

definition await :: "query \<Rightarrow> ('s \<Rightarrow> 'r \<times> 's) \<Rightarrow> ('s, 'r) io" where
  "await q f h =
     (case f (db h) of (r, s') \<Rightarrow> (Inr r, h\<lparr>db := s', queries := queries h @ [q]\<rparr>))"

section \<open>The auth middleware (index.js, authenticateToken)\<close>

text \<open>Lines 56 to 59: the candidate token, header first, then the named cookie.\<close>

definition headerToken :: "request \<Rightarrow> string option" where
  "headerToken req =
     (let authHeader = js_str (js_or (authorization req) (Some ''''))
      in if authHeader = [] then Some authHeader
         else index (split CHR '' '' authHeader) 1)"

definition cookieToken :: "env \<Rightarrow> request \<Rightarrow> string option" where
  "cookieToken ev req =
     (case cookies req of None \<Rightarrow> None | Some cs \<Rightarrow> map_of cs (COOKIE_NAME ev))"

definition token :: "env \<Rightarrow> request \<Rightarrow> string option" where
  "token ev req = js_or (headerToken req) (cookieToken ev req)"

definition authenticateToken ::
  "env \<Rightarrow> request \<Rightarrow> (claims \<Rightarrow> ('s, unit) io) \<Rightarrow> ('s, unit) io" where
  "authenticateToken ev req next =
     (if \<not> truthy (token ev req)
      then status_json 401 (message ''Invalid or no token found'')
      else case jwt_verify ev (js_str (token ev req)) of
             Inl err \<Rightarrow> status_json 401 (message ''Invalid token'')
           | Inr decoded \<Rightarrow> next decoded)"

section \<open>Response bodies\<close>

definition opt_str :: "string option \<Rightarrow> json" where
  "opt_str v = (case v of None \<Rightarrow> JNull | Some s \<Rightarrow> JStr s)"

definition db_error_json :: "db_error \<Rightarrow> json" where
  "db_error_json e =
     JObj [(''code'', JStr (e_code e)), (''details'', JStr (e_details e)),
           (''hint'', JStr (e_hint e)), (''message'', JStr (e_message e))]"

definition author_json :: "author option \<Rightarrow> json" where
  "author_json a =
     (case a of None \<Rightarrow> JNull
      | Some u \<Rightarrow> JObj [(''id'', JNum (a_id u)), (''name'', JStr (a_name u)),
                        (''email'', JStr (a_email u))])"

definition post_json :: "post \<Rightarrow> json" where
  "post_json p =
     JObj ([(''id'', JNum (p_id p)), (''title'', JStr (p_title p)), (''body'', JStr (p_body p)),
            (''user_id'', JNum (p_user_id p)), (''created_at'', JStr (p_created_at p))]
           @ (case p_author p of None \<Rightarrow> [] | Some a \<Rightarrow> [(''Users'', author_json a)]))"

definition opt_post_json :: "post option \<Rightarrow> json" where
  "opt_post_json p = (case p of None \<Rightarrow> JNull | Some x \<Rightarrow> post_json x)"

section \<open>Session cookie (index.js, generateTokenAndSetCookie)\<close>

text \<open>\<open>res.cookie\<close> sets a header, so it throws once the headers are sent.\<close>

definition res_cookie :: "cookie \<Rightarrow> ('s, unit) io" where
  "res_cookie c h =
     (if replies h = [] then ok () (h\<lparr>set_cookies := set_cookies h @ [c]\<rparr>)
      else throw ERR_HTTP_HEADERS_SENT h)"

definition generateTokenAndSetCookie :: "env \<Rightarrow> user \<Rightarrow> ('s, string) io" where
  "generateTokenAndSetCookie ev u =
     (let tok = jwt_sign ev \<lparr>c_id = u_id u, c_email = u_email u\<rparr>;
          cookieOptions =
            (if production ev
             then \<lparr>ck_name = COOKIE_NAME ev, ck_value = tok, ck_httpOnly = True,
                   ck_sameSite = ''none'', ck_secure = True\<rparr>
             else \<lparr>ck_name = COOKIE_NAME ev, ck_value = tok, ck_httpOnly = True,
                   ck_sameSite = ''lax'', ck_secure = False\<rparr>)
      in and_then (res_cookie cookieOptions) (\<lambda>_. ok tok))"

section \<open>Registration and login (index.js)\<close>

text \<open>
  POST /auth/register, lines 162 to 195. After a failed insert the handler replies 500
  without returning, so it goes on to build the 201 body from \<open>newUser\<close>.\<close>

definition register :: "env \<Rightarrow> 's store \<Rightarrow> request \<Rightarrow> ('s, unit) io" where
  "register ev st req =
     (if \<not> truthy (b_name req) \<or> \<not> truthy (b_email req) \<or> \<not> truthy (b_password req)
      then status_json 400 (message ''all fields are required'')
      else
        try_catch
          (and_then (await (UsersByEmail (js_str (b_email req)))
                           (users_by_email st (js_str (b_email req))))
            (\<lambda>existing.
              if data existing \<noteq> None
              then status_json 400 (message ''user already exists'')
              else
                let fresh = \<lparr>nu_name = js_str (b_name req), nu_email = js_str (b_email req),
                              nu_password = Some (bcrypt_hash ev (js_str (b_password req)))\<rparr>
                in and_then (await (UsersInsert fresh) (users_insert st fresh))
                  (\<lambda>created.
                    and_then
                      (if error created \<noteq> None
                       then status_json 500 (message ''error creating user'')
                       else ok ())
                      (\<lambda>_. case data created of
                              None \<Rightarrow> throw (TypeError ''Cannot read properties of null'')
                            | Some newUser \<Rightarrow>
                                status_json 201
                                  (JObj [(''message'', JStr ''User created successfully''),
                                         (''user'', JObj [(''id'', JNum (u_id newUser)),
                                                          (''name'', JStr (u_name newUser)),
                                                          (''email'', JStr (u_email newUser))])])))))
          (\<lambda>err. status_json 500 (JObj [(''error'', JStr ''internal server error'')])))"

text \<open>POST /auth/login, lines 197 to 243.\<close>

definition login :: "env \<Rightarrow> 's store \<Rightarrow> request \<Rightarrow> ('s, unit) io" where
  "login ev st req =
     (if \<not> truthy (b_email req) \<or> \<not> truthy (b_password req)
      then status_json 400 (message ''Both email and password are required'')
      else
        try_catch
          (and_then (await (UsersByEmail (js_str (b_email req)))
                           (users_by_email st (js_str (b_email req))))
            (\<lambda>found.
              case data found of
                None \<Rightarrow> status_json 400 (message ''User not found'')
              | Some u \<Rightarrow>
                  if error found \<noteq> None then status_json 400 (message ''User not found'')
                  else if \<not> truthy (u_password u)
                  then status_json 400
                         (message ''This account uses Google login. Please sign in with Google.'')
                  else if \<not> bcrypt_compare ev (js_str (b_password req)) (js_str (u_password u))
                  then status_json 400 (message ''Invalid credentials'')
                  else
                    and_then (generateTokenAndSetCookie ev u)
                      (\<lambda>_. status_json 200
                              (JObj [(''message'', JStr ''Login successful''),
                                     (''user'', JObj [(''id'', JNum (u_id u)),
                                                      (''name'', JStr (u_name u)),
                                                      (''email'', JStr (u_email u)),
                                                      (''profile_picture'',
                                                         opt_str (u_profile_picture u))])]))))
          (\<lambda>err. status_json 500 (message ''Internal server error'')))"

text \<open>GET /auth/me, lines 253 to 306: the cookie only, never the header.\<close>

definition auth_me :: "env \<Rightarrow> 's store \<Rightarrow> request \<Rightarrow> ('s, unit) io" where
  "auth_me ev st req =
     try_catch
       (if \<not> truthy (cookieToken ev req)
        then status_json 401
               (JObj [(''user'', JNull), (''debug'', JStr ''no_cookie''),
                      (''availableCookies'',
                         JArr (map (\<lambda>kv. JStr (fst kv))
                                   (case cookies req of None \<Rightarrow> [] | Some cs \<Rightarrow> cs)))])
        else
          case jwt_verify ev (js_str (cookieToken ev req)) of
            Inl err \<Rightarrow> throw err
          | Inr decoded \<Rightarrow>
              and_then (await (UsersById (c_id decoded)) (users_by_id st (c_id decoded)))
                (\<lambda>found.
                  case (error found, data found) of
                    (Some e, _) \<Rightarrow>
                      status_json 401
                        (JObj [(''user'', JNull), (''debug'', JStr ''user_not_found''),
                               (''error'', JStr (e_message e))])
                  | (None, None) \<Rightarrow>
                      status_json 401
                        (JObj [(''user'', JNull), (''debug'', JStr ''user_not_found'')])
                  | (None, Some u) \<Rightarrow>
                      status_json 200
                        (JObj [(''user'', JObj [(''id'', JNum (u_id u)),
                                                (''name'', JStr (u_name u)),
                                                (''email'', JStr (u_email u)),
                                                (''created_at'', JStr (u_created_at u)),
                                                (''profile_picture'',
                                                   opt_str (u_profile_picture u))])])))
       (\<lambda>err. status_json 401
                 (JObj [(''user'', JNull), (''debug'', JStr ''token_invalid''),
                        (''error'', JStr (err_message err))]))"

section \<open>Listing posts (index.js, GET /posts)\<close>

text \<open>
  \<open>parseInt(v)\<close> with no radix: leading white space is skipped, then an optional sign,
  then an optional \<open>0x\<close> prefix selecting radix 16, then the longest run of digits; no
  digit gives \<open>NaN\<close>; otherwise the result is the double nearest to the integer written
  (as V8 computes it; the standard allows an approximation past 20 digits). An absent
  parameter is the text \<open>undefined\<close>.

  A string is the UTF-8 encoding of the JavaScript string. \<open>white_prefix s\<close> is the
  number of bytes of the white space or line terminator character \<open>s\<close> starts with, or 0:
  TAB, LF, VT, FF, CR, SP, U+00A0, U+1680, U+2000 to U+200A, U+2028, U+2029, U+202F,
  U+205F, U+3000 and U+FEFF.\<close>

definition white_prefix :: "string \<Rightarrow> nat" where
  "white_prefix s =
     (if take 1 s \<in> set [[CHR 0x09], [CHR 0x0A], [CHR 0x0B], [CHR 0x0C], [CHR 0x0D], [CHR 0x20]]
      then 1
      else if take 2 s = [CHR 0xC2, CHR 0xA0] then 2
      else if take 3 s \<in> set ([[CHR 0xE1, CHR 0x9A, CHR 0x80], [CHR 0xE2, CHR 0x80, CHR 0xA8],
                                [CHR 0xE2, CHR 0x80, CHR 0xA9], [CHR 0xE2, CHR 0x80, CHR 0xAF],
                                [CHR 0xE2, CHR 0x81, CHR 0x9F], [CHR 0xE3, CHR 0x80, CHR 0x80],
                                [CHR 0xEF, CHR 0xBB, CHR 0xBF]]
                               @ map (\<lambda>c. [CHR 0xE2, CHR 0x80, c])
                                     [CHR 0x80, CHR 0x81, CHR 0x82, CHR 0x83, CHR 0x84, CHR 0x85,
                                      CHR 0x86, CHR 0x87, CHR 0x88, CHR 0x89, CHR 0x8A])
      then 3
      else 0)"

function skip_white :: "string \<Rightarrow> string" where
  "skip_white s = (if white_prefix s = 0 then s else skip_white (drop (white_prefix s) s))"
  by pat_completeness auto
termination
proof (relation "measure length")
  show "wf (measure length)" by simp
next
  fix s :: string
  assume "white_prefix s \<noteq> 0"
  moreover have "white_prefix [] = 0" by (simp add: white_prefix_def)
  ultimately have "s \<noteq> []" by auto
  with \<open>white_prefix s \<noteq> 0\<close> show "(drop (white_prefix s) s, s) \<in> measure length" by simp
qed

declare skip_white.simps [simp del]

definition digit_of :: "char \<Rightarrow> nat option" where
  "digit_of = map_of (zip ''0123456789abcdefABCDEF''
                          [0, 1, 2, 3, 4, 5, 6, 7, 8, 9, 10, 11, 12, 13, 14, 15, 10, 11, 12, 13, 14, 15])"

definition is_digit :: "nat \<Rightarrow> char \<Rightarrow> bool" where
  "is_digit r c = (case digit_of c of None \<Rightarrow> False | Some d \<Rightarrow> d < r)"

definition digits_value :: "nat \<Rightarrow> string \<Rightarrow> nat" where
  "digits_value r ds =
     foldl (\<lambda>acc c. case digit_of c of None \<Rightarrow> acc | Some d \<Rightarrow> acc * r + d) 0 ds"

definition parseInt :: "string option \<Rightarrow> number" where
  "parseInt v =
     (let s = skip_white (js_str v);
          negative = (take 1 s = ''-'');
          s1 = (if take 1 s = ''-'' \<or> take 1 s = ''+'' then drop 1 s else s);
          hex = (take 2 s1 = ''0x'' \<or> take 2 s1 = ''0X'');
          r = (if hex then 16 else 10);
          ds = takeWhile (is_digit r) (if hex then drop 2 s1 else s1)
      in if ds = [] then NaN
         else to_double ((if negative then - 1 else 1) * int (digits_value r ds)))"

text \<open>The decimal numeral of \<open>n\<close>, as a client writes it in the query string.\<close>

fun decimal :: "nat \<Rightarrow> string" where
  "decimal n =
     (if n < 10 then [''0123456789'' ! n]
      else decimal (n div 10) @ [''0123456789'' ! (n mod 10)])"

declare decimal.simps [simp del]

text \<open>The comma operator: \<open>(a, b)\<close> is \<open>b\<close>.\<close>

definition comma :: "'a \<Rightarrow> 'b \<Rightarrow> 'b" where
  "comma a b = b"

text \<open>Lines 309 to 318, in JavaScript's arithmetic.\<close>

definition page_of :: "request \<Rightarrow> number" where
  "page_of req =
     (let page = num_or (parseInt (q_page req)) (Fin 1)
      in if js_lt page (Fin 1) then Fin 1 else page)"

definition limit_of :: "request \<Rightarrow> number" where
  "limit_of req =
     (let limit = num_or (parseInt (q_limit req)) (Fin 10)
      in math_min (comma (Fin 1) limit) (Fin 100))"

definition range_start :: "request \<Rightarrow> number" where
  "range_start req = js_mul (js_sub (page_of req) (Fin 1)) (limit_of req)"

definition range_end :: "request \<Rightarrow> number" where
  "range_end req = js_sub (js_add (range_start req) (limit_of req)) (Fin 1)"

definition search_of :: "request \<Rightarrow> string option" where
  "search_of req =
     (let search = js_or (q_search req) (Some [])
      in if truthy search then search else None)"

text \<open>\<open>count || 0\<close>: the store's count is a JSON number or null.\<close>

definition count_of :: "posts_result \<Rightarrow> number" where
  "count_of r = (case rcount r of None \<Rightarrow> Fin 0 | Some c \<Rightarrow> num_or (to_double c) (Fin 0))"

definition posts_body :: "request \<Rightarrow> posts_result \<Rightarrow> json" where
  "posts_body req r =
     JObj [(''posts'', (case rows r of None \<Rightarrow> JNull | Some ps \<Rightarrow> JArr (map post_json ps))),
           (''totalPosts'', num_json (count_of r)),
           (''totalPages'', num_json (ceil_div (count_of r) (limit_of req))),
           (''currentPage'', num_json (page_of req))]"

definition get_posts :: "'s store \<Rightarrow> request \<Rightarrow> ('s, unit) io" where
  "get_posts st req =
     try_catch
       (and_then (await (PostsRange (search_of req) (range_start req) (range_end req))
                        (posts_range st (search_of req) (range_start req) (range_end req)))
         (\<lambda>r. case rerror r of
                 Some e \<Rightarrow>
                   status_json 500
                     (JObj [(''message'', JStr ''error fetching posts''),
                            (''error'', db_error_json e)])
               | None \<Rightarrow> status_json 200 (posts_body req r)))
       (\<lambda>err. status_json 500 (message ''posts fetch failed on server''))"

section \<open>Creating, updating and deleting posts (index.js)\<close>


text \<open>
  PUT /posts/:id, lines 373 to 396. The error branch replies 400 and does not return.\<close>

definition update_post :: "'s store \<Rightarrow> request \<Rightarrow> claims \<Rightarrow> ('s, unit) io" where
  "update_post st req usr =
     (if \<not> truthy (b_title req) \<or> \<not> truthy (b_body req)
      then status_json 400 (message ''title and body are required'')
      else
        try_catch
          (and_then (await (PostsUpdate (js_str (b_title req)) (js_str (b_body req))
                                        (param_id req) (c_id usr))
                           (posts_update st (js_str (b_title req)) (js_str (b_body req))
                                         (param_id req) (c_id usr)))
            (\<lambda>r. and_then
                    (if error r \<noteq> None
                     then status_json 400 (message ''Not authorized to update this post '')
                     else ok ())
                    (\<lambda>_. status_json 200 (JObj [(''updatedPost'', opt_post_json (data r))]))))
          (\<lambda>err. status_json 500 (message ''internal server error'')))"

text \<open>DELETE /posts/:id, lines 398 to 419: the delete has no \<open>select()\<close>.\<close>

definition delete_post :: "'s store \<Rightarrow> request \<Rightarrow> claims \<Rightarrow> ('s, unit) io" where
  "delete_post st req usr =
     try_catch
       (and_then (await (PostsDelete (param_id req) (c_id usr))
                        (posts_delete st (param_id req) (c_id usr)))
         (\<lambda>r. if error r \<noteq> None
               then status_json 400 (message ''not authorized to delete this post'')
               else status_json 200
                      (JObj [(''message'', JStr ''post deleted successfully''),
                             (''post'', opt_post_json (data r))])))
       (\<lambda>err. status_json 500 (message ''internal server error''))"


definition put_posts :: "env \<Rightarrow> 's store \<Rightarrow> request \<Rightarrow> ('s, unit) io" where
  "put_posts ev st req = authenticateToken ev req (update_post st req)"

definition delete_posts :: "env \<Rightarrow> 's store \<Rightarrow> request \<Rightarrow> ('s, unit) io" where
  "delete_posts ev st req = authenticateToken ev req (delete_post st req)"

section \<open>The same two routes in the test server (second half of jest.setup.js)\<close>

definition test_update_post :: "'s store \<Rightarrow> request \<Rightarrow> claims \<Rightarrow> ('s, unit) io" where
  "test_update_post st req usr =
     (if \<not> truthy (b_title req) \<or> \<not> truthy (b_body req)
      then status_json 400 (message ''title and body are required'')
      else
        try_catch
          (and_then (await (PostsUpdate (js_str (b_title req)) (js_str (b_body req))
                                        (param_id req) (c_id usr))
                           (posts_update st (js_str (b_title req)) (js_str (b_body req))
                                         (param_id req) (c_id usr)))
            (\<lambda>r. if error r \<noteq> None \<or> data r = None
                  then status_json 400
                         (message ''Not authorized to update this post or post not found'')
                  else status_json 200 (JObj [(''updatedPost'', opt_post_json (data r))])))
          (\<lambda>err. status_json 500 (message ''internal server error'')))"

definition test_delete_post :: "'s store \<Rightarrow> request \<Rightarrow> claims \<Rightarrow> ('s, unit) io" where
  "test_delete_post st req usr =
     try_catch
       (and_then (await (PostsDeleteSelect (param_id req) (c_id usr))
                        (posts_delete_select st (param_id req) (c_id usr)))
         (\<lambda>r. if error r \<noteq> None \<or> data r = None
               then status_json 400
                      (message ''not authorized to delete this post or post not found'')
               else status_json 200
                      (JObj [(''message'', JStr ''post deleted successfully''),
                             (''post'', opt_post_json (data r))])))
       (\<lambda>err. status_json 500 (message ''internal server error''))"

definition test_put_posts :: "env \<Rightarrow> 's store \<Rightarrow> request \<Rightarrow> ('s, unit) io" where
  "test_put_posts ev st req = authenticateToken ev req (test_update_post st req)"

definition test_delete_posts :: "env \<Rightarrow> 's store \<Rightarrow> request \<Rightarrow> ('s, unit) io" where
  "test_delete_posts ev st req = authenticateToken ev req (test_delete_post st req)"

section \<open>The OAuth identity resolver (passport-config, in jest.setup.js lines 41 to 116)\<close>

record name_parts =
  givenName :: "string option"
  familyName :: "string option"

record email_entry =
  ev_value :: "string option"

record profile =
  pr_id :: string
  displayName :: "string option"
  pr_name :: "name_parts option"
  emails :: "email_entry list option"

text \<open>Line 50: \<open>profile.emails && profile.emails[0]?.value\<close>.\<close>

definition profile_email :: "profile \<Rightarrow> string option" where
  "profile_email p =
     (case emails p of
        None \<Rightarrow> None
      | Some es \<Rightarrow> (case index es 0 of None \<Rightarrow> None | Some e \<Rightarrow> ev_value e))"

text \<open>
  Line 51: \<open>profile.displayName || profile.name?.givenName + " " + profile.name?.familyName\<close>;
  \<open>+\<close> binds tighter than \<open>||\<close>.\<close>

definition profile_name :: "profile \<Rightarrow> string option" where
  "profile_name p =
     js_or (displayName p)
       (Some (js_str (case pr_name p of None \<Rightarrow> None | Some n \<Rightarrow> givenName n) @ '' '' @
              js_str (case pr_name p of None \<Rightarrow> None | Some n \<Rightarrow> familyName n)))"

text \<open>
  The verify callback. Its value is what it passes to \<open>done\<close>: an error (\<open>Inl\<close>) or the
  user (\<open>Inr\<close>). An exception inside the \<open>try\<close> is caught and passed to \<open>done\<close> too.\<close>

definition verify_callback :: "'s store \<Rightarrow> profile \<Rightarrow> ('s, js_error + user) io" where
  "verify_callback st p =
     try_catch
       (let email = profile_email p; name = profile_name p
        in if \<not> truthy email then ok (Inl (Error ''No email found in Google profile''))
           else if \<not> truthy name then ok (Inl (Error ''No name found in Google profile''))
           else
             and_then (await (UsersByEmail (js_str email)) (users_by_email st (js_str email)))
               (\<lambda>existing.
                 case (data existing, error existing) of
                   (Some existingUser, None) \<Rightarrow> ok (Inr existingUser)
                 | _ \<Rightarrow>
                   let fresh = \<lparr>nu_name = trim (js_str name),
                                 nu_email = trim (toLowerCase (js_str email)),
                                 nu_password = None\<rparr>
                   in and_then (await (UsersInsert fresh) (users_insert st fresh))
                     (\<lambda>created.
                       case error created of
                         Some createError \<Rightarrow>
                           if e_code createError = ''23505''
                           then and_then (await (UsersByEmail (js_str email))
                                                (users_by_email st (js_str email)))
                                  (\<lambda>retry.
                                    case (data retry, error retry) of
                                      (Some retryUser, None) \<Rightarrow> ok (Inr retryUser)
                                    | _ \<Rightarrow> ok (Inl (PostgrestError createError)))
                           else ok (Inl (PostgrestError createError))
                       | None \<Rightarrow>
                           (case data created of
                              None \<Rightarrow> throw (TypeError ''Cannot read properties of null'')
                            | Some newUser \<Rightarrow> ok (Inr newUser)))))
       (\<lambda>err. ok (Inl err))"

section \<open>A reference store and environment\<close>

text \<open>
  An in-memory instance of the store, used to run the handlers on concrete inputs. It
  follows the collaborator contract: a unique constraint on the email of a user, reported
  with code 23505; \<open>single()\<close> reporting an error unless exactly one row results;
  update and delete filtered by post id and owner; a range select, newest first, with a
  case-insensitive match on the title and the exact count. Other clients are part of it:
  \<open>m_pending\<close> holds their registrations, one batch committed just before each of the
  handler's own queries.\<close>

record mem =
  m_users :: "user list"
  m_posts :: "post list"
  m_pending :: "new_user list list"

definition no_rows :: db_error where
  "no_rows = \<lparr>e_code = ''PGRST116'', e_message = ''JSON object requested, multiple (or no) rows returned'',
              e_details = ''The result contains 0 rows'', e_hint = []\<rparr>"

definition duplicate_key :: db_error where
  "duplicate_key = \<lparr>e_code = ''23505'', e_message = ''duplicate key value violates unique constraint'',
                    e_details = ''Key (email) already exists.'', e_hint = []\<rparr>"

definition bad_range :: db_error where
  "bad_range = \<lparr>e_code = ''PGRST103'', e_message = ''Requested range not satisfiable'',
                e_details = [], e_hint = []\<rparr>"

definition single :: "'a list \<Rightarrow> 'a db_result" where
  "single xs = (case xs of [x] \<Rightarrow> \<lparr>data = Some x, error = None\<rparr>
                | _ \<Rightarrow> \<lparr>data = None, error = Some no_rows\<rparr>)"

definition insert_user :: "new_user \<Rightarrow> user list \<Rightarrow> user db_result \<times> user list" where
  "insert_user nu us =
     (if list_ex (\<lambda>u. u_email u = nu_email nu) us
      then (\<lparr>data = None, error = Some duplicate_key\<rparr>, us)
      else
        let row = \<lparr>u_id = 1 + fold max (map u_id us) 0, u_name = nu_name nu,
                    u_email = nu_email nu, u_password = nu_password nu,
                    u_profile_picture = None, u_created_at = ''now''\<rparr>
        in (\<lparr>data = Some row, error = None\<rparr>, us @ [row]))"

definition tick :: "mem \<Rightarrow> mem" where
  "tick s =
     (case m_pending s of
        [] \<Rightarrow> s
      | b # bs \<Rightarrow> s\<lparr>m_users := fold (\<lambda>nu us. snd (insert_user nu us)) b (m_users s),
                     m_pending := bs\<rparr>)"

definition contains :: "string \<Rightarrow> string \<Rightarrow> bool" where
  "contains pat s = list_ex (\<lambda>i. take (length pat) (drop i s) = pat) [0..<Suc (length s)]"

definition owned :: "string \<Rightarrow> int \<Rightarrow> post \<Rightarrow> bool" where
  "owned pid uid p = (parseInt (Some pid) = Fin (p_id p) \<and> p_user_id p = uid)"

definition with_author :: "user list \<Rightarrow> post \<Rightarrow> post" where
  "with_author us p =
     p\<lparr>p_author := Some (case filter (\<lambda>u. u_id u = p_user_id p) us of
                           [] \<Rightarrow> None
                         | u # _ \<Rightarrow> Some \<lparr>a_id = u_id u, a_name = u_name u, a_email = u_email u\<rparr>)\<rparr>"

definition mem_range :: "string option \<Rightarrow> number \<Rightarrow> number \<Rightarrow> mem \<Rightarrow> posts_result" where
  "mem_range search x y s =
     (let matching = filter (\<lambda>p. case search of None \<Rightarrow> True
                                   | Some pat \<Rightarrow> contains (toLowerCase pat) (toLowerCase (p_title p)))
                            (rev (m_posts s))
      in case (x, y) of
           (Fin a, Fin b) \<Rightarrow>
             if a < 0 \<or> b < a then \<lparr>rows = None, rcount = None, rerror = Some bad_range\<rparr>
             else \<lparr>rows = Some (map (with_author (m_users s))
                                   (take (nat (b - a + 1)) (drop (nat a) matching))),
                   rcount = Some (int (length matching)), rerror = None\<rparr>
         | _ \<Rightarrow> \<lparr>rows = None, rcount = None, rerror = Some bad_range\<rparr>)"

definition mem_store :: "mem store" where
  "mem_store =
     \<lparr>users_by_email = (\<lambda>e s. (single (filter (\<lambda>u. u_email u = e) (m_users (tick s))), tick s)),
      users_by_id = (\<lambda>i s. (single (map (\<lambda>u. u\<lparr>u_password := None\<rparr>)
                                          (filter (\<lambda>u. u_id u = i) (m_users (tick s)))), tick s)),
      users_insert = (\<lambda>nu s. case insert_user nu (m_users (tick s)) of
                                (r, us) \<Rightarrow> (r, (tick s)\<lparr>m_users := us\<rparr>)),
      posts_range = (\<lambda>search a b s. (mem_range search a b (tick s), tick s)),
      posts_insert = (\<lambda>t b uid s.
         let row = \<lparr>p_id = 1 + fold max (map p_id (m_posts (tick s))) 0, p_title = t, p_body = b,
                     p_user_id = uid, p_created_at = ''now'', p_author = None\<rparr>
         in (\<lparr>data = Some row, error = None\<rparr>, (tick s)\<lparr>m_posts := m_posts (tick s) @ [row]\<rparr>)),
      posts_update = (\<lambda>t b pid uid s.
         case filter (owned pid uid) (m_posts (tick s)) of
           [p] \<Rightarrow> (\<lparr>data = Some (p\<lparr>p_title := t, p_body := b\<rparr>), error = None\<rparr>,
                   (tick s)\<lparr>m_posts := map (\<lambda>q. if owned pid uid q then q\<lparr>p_title := t, p_body := b\<rparr> else q)
                                             (m_posts (tick s))\<rparr>)
         | _ \<Rightarrow> (\<lparr>data = None, error = Some no_rows\<rparr>, tick s)),
      posts_delete = (\<lambda>pid uid s.
         case filter (owned pid uid) (m_posts (tick s)) of
           [p] \<Rightarrow> (\<lparr>data = None, error = None\<rparr>,
                   (tick s)\<lparr>m_posts := filter (\<lambda>q. \<not> owned pid uid q) (m_posts (tick s))\<rparr>)
         | _ \<Rightarrow> (\<lparr>data = None, error = Some no_rows\<rparr>, tick s)),
      posts_delete_select = (\<lambda>pid uid s.
         case filter (owned pid uid) (m_posts (tick s)) of
           [p] \<Rightarrow> (\<lparr>data = Some p, error = None\<rparr>,
                   (tick s)\<lparr>m_posts := filter (\<lambda>q. \<not> owned pid uid q) (m_posts (tick s))\<rparr>)
         | _ \<Rightarrow> (\<lparr>data = None, error = Some no_rows\<rparr>, tick s))\<rparr>"

text \<open>A fixed environment: two valid tokens, a transparent hash.\<close>

definition test_env :: env where
  "test_env =
     \<lparr>COOKIE_NAME = ''test_token'', production = False,
      jwt_verify = (\<lambda>t. if t = ''token-of-1'' then Inr \<lparr>c_id = 1, c_email = ''ann@example.com''\<rparr>
                         else if t = ''token-of-2'' then Inr \<lparr>c_id = 2, c_email = ''bob@example.com''\<rparr>
                         else Inl (JsonWebTokenError ''invalid token'')),
      jwt_sign = (\<lambda>c. if c_id c = 1 then ''token-of-1'' else ''token-of-2''),
      bcrypt_hash = (\<lambda>p. ''hash:'' @ p),
      bcrypt_compare = (\<lambda>p h. h = ''hash:'' @ p)\<rparr>"

definition ann :: user where
  "ann = \<lparr>u_id = 1, u_name = ''Ann'', u_email = ''ann@example.com'',
          u_password = Some ''hash:secret'', u_profile_picture = None, u_created_at = ''now''\<rparr>"

definition bob :: user where
  "bob = \<lparr>u_id = 2, u_name = ''Bob'', u_email = ''bob@example.com'',
          u_password = Some ''hash:hunter2'', u_profile_picture = None, u_created_at = ''now''\<rparr>"

definition first_post :: post where
  "first_post = \<lparr>p_id = 1, p_title = ''Hello'', p_body = ''First post'', p_user_id = 1,
                 p_created_at = ''now'', p_author = None\<rparr>"

definition mem0 :: mem where
  "mem0 = \<lparr>m_users = [ann, bob], m_posts = [first_post], m_pending = []\<rparr>"

definition request0 :: request where
  "request0 = \<lparr>authorization = None, cookies = Some [], param_id = [], q_page = None,
               q_limit = None, q_search = None, b_name = None, b_email = None,
               b_password = None, b_title = None, b_body = None\<rparr>"

text \<open>A store in which another client registers Carol between two queries of a handler.\<close>

definition carol :: user where
  "carol = \<lparr>u_id = 3, u_name = ''Carol'', u_email = ''carol@example.com'',
            u_password = None, u_profile_picture = None, u_created_at = ''now''\<rparr>"

definition racing :: mem where
  "racing = mem0\<lparr>m_pending := [[], [\<lparr>nu_name = ''Carol'', nu_email = ''carol@example.com'',
                                        nu_password = None\<rparr>]]\<rparr>"

text \<open>Provider profiles: Carol; Alice, whose provider email has capitals; one with no name.\<close>

definition carol_profile :: profile where
  "carol_profile = \<lparr>pr_id = ''g-3'', displayName = Some ''Carol'', pr_name = None,
                      emails = Some [\<lparr>ev_value = Some ''carol@example.com''\<rparr>]\<rparr>"

definition alice_profile :: profile where
  "alice_profile = \<lparr>pr_id = ''g-4'', displayName = Some ''Alice'', pr_name = None,
                      emails = Some [\<lparr>ev_value = Some ''Alice@Example.com''\<rparr>]\<rparr>"

definition alice :: user where
  "alice = \<lparr>u_id = 3, u_name = ''Alice'', u_email = ''alice@example.com'',
            u_password = None, u_profile_picture = None, u_created_at = ''now''\<rparr>"

definition nameless_profile :: profile where
  "nameless_profile = \<lparr>pr_id = ''g-5'', displayName = None, pr_name = None,
                         emails = Some [\<lparr>ev_value = Some ''dan@example.com''\<rparr>]\<rparr>"

text \<open>Bob, authenticated, updating or deleting a post: Ann's post 1, or post 99, which
  does not exist.\<close>

definition bob_on :: "string \<Rightarrow> request" where
  "bob_on pid = request0\<lparr>authorization := Some ''Bearer token-of-2'', param_id := pid,
                         b_title := Some ''Mine now'', b_body := Some ''text''\<rparr>"


section \<open>Proof tools\<close>

lemmas io_defs = ok_def throw_def and_then_def try_catch_def status_json_def await_def

lemma split_no_sep: "c \<notin> set xs \<Longrightarrow> split c xs = [xs]"
  by (induction xs) auto

lemma split_prefix: "c \<notin> set xs \<Longrightarrow> split c (xs @ c # ys) = xs # split c ys"
  by (induction xs) auto

lemma headerToken_bearer:
  assumes "authorization req = Some (scheme @ '' '' @ t)"
    and "CHR '' '' \<notin> set scheme" and "CHR '' '' \<notin> set t"
  shows "headerToken req = Some t"
  using assms by (simp add: headerToken_def js_or_def split_prefix split_no_sep)




section \<open>Numbers and \<open>parseInt\<close>\<close>

lemmas parse_defs = parseInt_def is_digit_def digit_of_def digits_value_def to_double_def

lemma skip_white_none: "white_prefix s = 0 \<Longrightarrow> skip_white s = s"
  by (subst skip_white.simps) simp

lemma parseInt_0: "parseInt (Some ''0'') = Fin 0"
  by (simp add: parse_defs skip_white_none white_prefix_def)

lemma parseInt_1: "parseInt (Some ''1'') = Fin 1"
  by (simp add: parse_defs skip_white_none white_prefix_def)

lemma parseInt_99: "parseInt (Some ''99'') = Fin 99"
  by (simp add: parse_defs skip_white_none white_prefix_def)

lemma parseInt_1000: "parseInt (Some ''1000'') = Fin 1000"
  by (simp add: parse_defs skip_white_none white_prefix_def)

lemma parseInt_undefined: "parseInt None = NaN"
  by (simp add: parse_defs skip_white_none white_prefix_def)

lemma digit_cases: "d < 10 \<Longrightarrow> d \<in> {0, 1, 2, 3, 4, 5, 6, 7, 8, 9 :: nat}"
  by auto

lemma white_prefix_plain:
  assumes "c \<notin> set [CHR 0x09, CHR 0x0A, CHR 0x0B, CHR 0x0C, CHR 0x0D, CHR 0x20,
                          CHR 0xC2, CHR 0xE1, CHR 0xE2, CHR 0xE3, CHR 0xEF]"
  shows "white_prefix (c # cs) = 0"
proof -
  have "take 1 (c # cs) = [c]" by simp
  moreover have "take 2 (c # cs) = c # take 1 cs" by (simp add: take_Cons')
  moreover have "take 3 (c # cs) = c # take 2 cs" by (simp add: take_Cons')
  ultimately show ?thesis
    using assms unfolding white_prefix_def by simp
qed

lemma decimal_digit:
  assumes "d < 10"
  shows "digit_of (''0123456789'' ! d) = Some d"
    and "white_prefix ((''0123456789'' ! d) # cs) = 0"
    and "''0123456789'' ! d \<notin> set ''-+xX''"
proof -
  from digit_cases [OF assms]
  show "digit_of (''0123456789'' ! d) = Some d" by (auto simp: digit_of_def)
  from digit_cases [OF assms]
  show "''0123456789'' ! d \<notin> set ''-+xX''" by auto
  from digit_cases [OF assms]
  have "''0123456789'' ! d \<notin> set [CHR 0x09, CHR 0x0A, CHR 0x0B, CHR 0x0C, CHR 0x0D, CHR 0x20,
                          CHR 0xC2, CHR 0xE1, CHR 0xE2, CHR 0xE3, CHR 0xEF]" by auto
  then show "white_prefix ((''0123456789'' ! d) # cs) = 0" by (rule white_prefix_plain)
qed

lemma decimal_chars: "c \<in> set (decimal n) \<Longrightarrow> \<exists>d<10. c = ''0123456789'' ! d"
proof (induction n rule: decimal.induct)
  case (1 n)
  show ?case
  proof (cases "n < 10")
    case True
    with "1.prems" show ?thesis by (subst (asm) decimal.simps) auto
  next
    case False
    with "1.prems" have "c \<in> set (decimal (n div 10)) \<or> c = ''0123456789'' ! (n mod 10)"
      by (subst (asm) decimal.simps) auto
    then show ?thesis
    proof
      assume "c \<in> set (decimal (n div 10))"
      with "1.IH" [OF False] show ?thesis .
    next
      assume "c = ''0123456789'' ! (n mod 10)"
      moreover have "n mod 10 < 10" by simp
      ultimately show ?thesis by blast
    qed
  qed
qed

lemma digits_value_snoc:
  "digit_of c = Some d \<Longrightarrow> digits_value r (xs @ [c]) = digits_value r xs * r + d"
  by (simp add: digits_value_def)

lemma decimal_value: "digits_value 10 (decimal n) = n"
proof (induction n rule: decimal.induct)
  case (1 n)
  show ?case
  proof (cases "n < 10")
    case True
    then have "decimal n = [] @ [''0123456789'' ! n]" by (subst decimal.simps) simp
    with decimal_digit(1) [OF True] show ?thesis
      by (simp only: digits_value_snoc) (simp add: digits_value_def)
  next
    case False
    have m: "n mod 10 < 10" by simp
    from False have "decimal n = decimal (n div 10) @ [''0123456789'' ! (n mod 10)]"
      by (subst decimal.simps) simp
    with decimal_digit(1) [OF m] "1.IH" [OF False] show ?thesis
      by (simp only: digits_value_snoc) simp
  qed
qed

lemma decimal_hd: "\<exists>d cs. d < 10 \<and> decimal n = (''0123456789'' ! d) # cs"
proof (induction n rule: decimal.induct)
  case (1 n)
  show ?case
  proof (cases "n < 10")
    case True
    then have "decimal n = [''0123456789'' ! n]" by (subst decimal.simps) simp
    with True show ?thesis by blast
  next
    case False
    from "1.IH" [OF False] obtain d cs where d: "d < 10"
      and "decimal (n div 10) = (''0123456789'' ! d) # cs" by blast
    with False have "decimal n = (''0123456789'' ! d) # (cs @ [''0123456789'' ! (n mod 10)])"
      by (subst decimal.simps) simp
    with d show ?thesis by blast
  qed
qed

lemma parseInt_decimal: "parseInt (Some (decimal n)) = to_double (int n)"
proof -
  obtain d cs where d: "d < 10" and s: "decimal n = (''0123456789'' ! d) # cs"
    using decimal_hd by blast
  have sk: "skip_white (decimal n) = decimal n"
    unfolding s by (rule skip_white_none) (rule decimal_digit(2) [OF d])
  have sign: "take (Suc 0) (decimal n) \<noteq> ''-''" "take (Suc 0) (decimal n) \<noteq> ''+''"
    using decimal_digit(3) [OF d] by (auto simp: s)
  have nox: "CHR ''x'' \<notin> set (decimal n)" "CHR ''X'' \<notin> set (decimal n)"
    using decimal_chars [of _ n] decimal_digit(3) by (metis list.set_intros(1,2))+
  have hex: "take 2 (decimal n) \<noteq> ''0x''" "take 2 (decimal n) \<noteq> ''0X''"
  proof -
    have "set (take 2 (decimal n)) \<subseteq> set (decimal n)" by (rule set_take_subset)
    with nox show "take 2 (decimal n) \<noteq> ''0x''" "take 2 (decimal n) \<noteq> ''0X''" by auto
  qed
  have "is_digit 10 c" if "c \<in> set (decimal n)" for c
    using decimal_chars [OF that] decimal_digit(1) by (auto simp: is_digit_def)
  then have all: "takeWhile (is_digit 10) (decimal n) = decimal n"
    by (simp add: takeWhile_eq_all_conv)
  have ne: "decimal n \<noteq> []" by (simp add: s)
  show ?thesis
    by (simp add: parseInt_def Let_def sk sign hex all ne decimal_value)
qed

lemma to_double_exact: "\<bar>n\<bar> \<le> 2 ^ 53 \<Longrightarrow> to_double n = Fin n"
  by (simp add: to_double_def)

lemma page_of_cases:
  "parseInt (q_page req) = Fin n \<Longrightarrow> 1 \<le> n \<Longrightarrow> page_of req = Fin n"
  "parseInt (q_page req) = Fin n \<Longrightarrow> n < 1 \<Longrightarrow> page_of req = Fin 1"
  "parseInt (q_page req) = NaN \<Longrightarrow> page_of req = Fin 1"
  "parseInt (q_page req) = NegInf \<Longrightarrow> page_of req = Fin 1"
  "parseInt (q_page req) = PosInf \<Longrightarrow> page_of req = PosInf"
  by (simp_all add: page_of_def num_or_def)

lemma page_of_ge_1: "\<not> js_lt (page_of req) (Fin 1) \<and> page_of req \<noteq> NaN"
  by (cases "parseInt (q_page req)") (simp_all add: page_of_def num_or_def)

lemma limit_of_cases:
  "parseInt (q_limit req) = Fin n \<Longrightarrow> n \<noteq> 0 \<Longrightarrow> limit_of req = Fin (min n 100)"
  "parseInt (q_limit req) = Fin 0 \<Longrightarrow> limit_of req = Fin 10"
  "parseInt (q_limit req) = NaN \<Longrightarrow> limit_of req = Fin 10"
  "parseInt (q_limit req) = NegInf \<Longrightarrow> limit_of req = NegInf"
  "parseInt (q_limit req) = PosInf \<Longrightarrow> limit_of req = Fin 100"
  by (simp_all add: limit_of_def num_or_def math_min_def comma_def min_def)

lemma limit_of_le_100: "\<not> js_lt (Fin 100) (limit_of req) \<and> limit_of req \<noteq> NaN \<and> limit_of req \<noteq> Fin 0"
  by (cases "parseInt (q_limit req)")
     (simp_all add: limit_of_def num_or_def math_min_def comma_def)

lemma page_decimal:
  assumes "q_page req = Some (decimal k)" and "1 \<le> k" and "k \<le> 2 ^ 53"
  shows "page_of req = Fin (int k)"
proof -
  from assms(3) have "\<bar>int k\<bar> \<le> 2 ^ 53" by (simp add: of_nat_le_iff [of k "2 ^ 53", simplified])
  then have "parseInt (q_page req) = Fin (int k)"
    by (simp add: assms(1) parseInt_decimal to_double_exact)
  with assms(2) show ?thesis by (simp add: page_of_cases(1))
qed

lemma bit_length_bounds:
  "0 < n \<Longrightarrow> 2 ^ (bit_length n - 1) \<le> n \<and> n < 2 ^ bit_length n"
proof (induction n rule: bit_length.induct)
  case (1 n)
  show ?case
  proof (cases "n div 2 = 0")
    case True
    with "1.prems" have "n = 1" by presburger
    have "bit_length (Suc 0) = Suc 0"
      by (simp add: bit_length.simps [of "Suc 0"] bit_length.simps [of 0])
    with \<open>n = 1\<close> show ?thesis by simp
  next
    case False
    then have pos: "0 < n div 2" by simp
    from "1.prems" have n0: "n \<noteq> 0" by simp
    from "1.IH" [OF n0 pos] have lo: "2 ^ (bit_length (n div 2) - 1) \<le> n div 2"
      and hi: "n div 2 < 2 ^ bit_length (n div 2)" by simp_all
    from pos have b1: "1 \<le> bit_length (n div 2)"
      by (subst bit_length.simps) simp
    have eq: "bit_length n = Suc (bit_length (n div 2))"
      using n0 by (subst bit_length.simps) simp
    from b1 have "(2::nat) ^ bit_length (n div 2) = 2 * 2 ^ (bit_length (n div 2) - 1)"
      by (cases "bit_length (n div 2)") simp_all
    with lo have "2 ^ bit_length (n div 2) \<le> 2 * (n div 2)" by simp
    also have "\<dots> \<le> n" by simp
    finally have "2 ^ (bit_length n - 1) \<le> n" by (simp add: eq)
    moreover from hi have "n < 2 ^ bit_length n" unfolding eq by simp
    ultimately show ?thesis by blast
  qed
qed

lemma round_even_bounds:
  assumes "0 < b"
  shows "a div b \<le> round_even a b" and "round_even a b \<le> a div b + 1"
    and "\<bar>2 * (round_even a b * b - a)\<bar> \<le> b"
    and "b dvd a \<Longrightarrow> round_even a b * b = a"
proof -
  have m: "a = a div b * b + a mod b" by simp
  have r: "0 \<le> a mod b" "a mod b < b" using assms by simp_all
  show "a div b \<le> round_even a b" "round_even a b \<le> a div b + 1"
    by (simp_all add: round_even_def Let_def)
  show "\<bar>2 * (round_even a b * b - a)\<bar> \<le> b"
  proof (cases "2 * (a mod b) < b")
    case True
    then have "round_even a b * b - a = - (a mod b)"
      by (simp add: round_even_def Let_def algebra_simps minus_mod_eq_mult_div [symmetric])
    with True r show ?thesis by simp
  next
    case False
    show ?thesis
    proof (cases "b < 2 * (a mod b)")
      case True
      then have "round_even a b * b - a = b - a mod b"
        by (simp add: round_even_def Let_def algebra_simps minus_mod_eq_mult_div [symmetric])
      with True r show ?thesis by simp
    next
      case f: False
      with False have h: "2 * (a mod b) = b" by simp
      have "round_even a b * b - a = - (a mod b) \<or> round_even a b * b - a = b - a mod b"
        using h by (auto simp: round_even_def Let_def algebra_simps minus_mod_eq_mult_div [symmetric])
      with h r show ?thesis by auto
    qed
  qed
  show "round_even a b * b = a" if "b dvd a"
  proof -
    from that have "a mod b = 0" by simp
    moreover from that have "a div b * b = a" by simp
    ultimately show ?thesis using assms by (simp add: round_even_def Let_def)
  qed
qed

lemma to_double_large:
  assumes "2 ^ 53 < n"
  shows "to_double n = PosInf \<or> (\<exists>m. to_double n = Fin m \<and> 2 ^ 53 \<le> m)"
proof -
  define L where "L = bit_length (nat \<bar>n\<bar>)"
  define q :: int where "q = 2 ^ (L - 53)"
  define v where "v = round_even \<bar>n\<bar> q * q"
  from assms have n: "\<bar>n\<bar> = n" "0 < nat n" "sgn n = 1" "\<not> n < 0" "\<not> \<bar>n\<bar> \<le> 2 ^ 53"
    by simp_all
  from bit_length_bounds [OF n(2)]
  have "int (2 ^ (L - 1)) \<le> int (nat n)" and "int (nat n) < int (2 ^ L)"
    unfolding L_def n by (simp_all only: of_nat_le_iff of_nat_less_iff)
  then have lo: "(2::int) ^ (L - 1) \<le> n" and hi: "n < (2::int) ^ L"
    using n(2) by simp_all
  from assms hi have "(2::int) ^ 53 < 2 ^ L" by (rule less_trans)
  then have L: "53 < L" by (rule power_less_imp_less_exp [rotated]) simp
  have q0: "0 < q" by (simp add: q_def)
  from L have "(2::int) ^ 1 \<le> 2 ^ (L - 53)" by (intro power_increasing) simp_all
  then have q2: "2 \<le> q" by (simp add: q_def)
  from L have "L - 1 = 52 + (L - 53)" by simp
  then have "(2::int) ^ (L - 1) = 2 ^ 52 * q" by (simp only: power_add q_def)

  with lo have "2 ^ 52 * q \<le> n" by simp
  then have "(2 ^ 52 * q) div q \<le> n div q" using q0 by (intro zdiv_mono1)
  with q0 have "2 ^ 52 \<le> n div q" by simp
  also have "\<dots> \<le> round_even n q" by (rule round_even_bounds(1) [OF q0])
  finally have "2 ^ 52 * 2 \<le> round_even n q * q" using q2 by (intro mult_mono) simp_all
  then have v: "2 ^ 53 \<le> v" by (simp add: v_def n)
  have "to_double n = (if 2 ^ 1024 \<le> v then PosInf else Fin v)"
    using n by (simp add: to_double_def Let_def v_def q_def L_def)
  with v show ?thesis by auto
qed

lemma limit_decimal:
  assumes "q_limit req = Some (decimal k)" and "1 \<le> k"
  shows "limit_of req = Fin (min (int k) 100)"
proof (cases "int k \<le> 2 ^ 53")
  case True
  then have "parseInt (q_limit req) = Fin (int k)"
    by (simp add: assms(1) parseInt_decimal to_double_exact)
  with assms(2) show ?thesis by (simp add: limit_of_cases(1))
next
  case False
  then have big: "2 ^ 53 < int k" by simp
  from to_double_large [OF big] consider "parseInt (q_limit req) = PosInf"
    | m where "parseInt (q_limit req) = Fin m" "2 ^ 53 \<le> m"
    by (auto simp: assms(1) parseInt_decimal)
  then show ?thesis
  proof cases
    case 1
    with big show ?thesis by (simp add: limit_of_cases(5))
  next
    case 2
    with big show ?thesis by (simp add: limit_of_cases(1))
  qed
qed

lemma bit_length_int:
  assumes "0 < n"
  shows "(2::int) ^ (bit_length (nat n) - 1) \<le> n" and "n < (2::int) ^ bit_length (nat n)"
    and "1 \<le> bit_length (nat n)"
proof -
  from assms have p: "0 < nat n" by simp
  from bit_length_bounds [OF p]
  have "int (2 ^ (bit_length (nat n) - 1)) \<le> int (nat n)" and "int (nat n) < int (2 ^ bit_length (nat n))"
    by (simp_all only: of_nat_le_iff of_nat_less_iff)
  with assms show "(2::int) ^ (bit_length (nat n) - 1) \<le> n" and hi: "n < (2::int) ^ bit_length (nat n)"
    by simp_all
  show "1 \<le> bit_length (nat n)"
  proof (rule ccontr)
    assume "\<not> 1 \<le> bit_length (nat n)"
    then have "bit_length (nat n) = 0" by simp
    with hi assms show False by simp
  qed
qed

lemma ceil_of_rounded:
  fixes c l P m t :: int
  assumes l: "0 < l" and P: "0 < P" and lP: "l < 2 * P"
    and t: "t = - ((- c) div l)"
    and m: "m = round_even (c * P) l"
  shows "- ((- m) div P) = t"
proof -
  define r where "r = (- c) mod l"
  have r: "0 \<le> r" "r < l" using l by (simp_all add: r_def)
  have "- c = (- c) div l * l + r" by (simp add: r_def)
  then have c: "c = t * l - r" by (simp add: t)
  have bound: "\<bar>2 * (m * l - c * P)\<bar> \<le> l"
    unfolding m by (rule round_even_bounds(3) [OF l])
  have between: "(t - 1) * P < m \<and> m \<le> t * P"
  proof (cases "r = 0")
    case True
    with c have "l dvd c * P" by simp
    from round_even_bounds(4) [OF l this] have "m * l = (t * P) * l"
      by (simp add: m c True algebra_simps)
    with l have "m = t * P" by simp
    with P show ?thesis by (simp add: algebra_simps)
  next
    case False
    with r have r1: "1 \<le> r" "r \<le> l - 1" by simp_all
    define TLP where "TLP = t * P * l"
    define RP where "RP = r * P"
    define LP where "LP = P * l"
    define Mx where "Mx = m * l"
    have cP: "c * P = TLP - RP" by (simp add: c TLP_def RP_def algebra_simps)
    from r1(1) P have "1 * P \<le> r * P" by (intro mult_right_mono) simp_all
    then have RP1: "P \<le> RP" by (simp add: RP_def)
    from r1(2) P have "r * P \<le> (l - 1) * P" by (intro mult_right_mono) simp_all
    then have RP2: "RP \<le> LP - P" by (simp add: RP_def LP_def algebra_simps)
    from bound have b: "\<bar>2 * (Mx - (TLP - RP))\<bar> \<le> l" by (simp add: Mx_def cP)
    from b have b1: "2 * (Mx - (TLP - RP)) \<le> l" and b2: "- l \<le> 2 * (Mx - (TLP - RP))"
      by (simp_all only: abs_le_iff) linarith+
    from b1 RP1 lP have "Mx < TLP" by presburger
    moreover from b2 RP2 lP have "TLP - LP < Mx" by presburger
    ultimately have "Mx < TLP" and "TLP - LP < Mx" by blast+
    then have "m * l < (t * P) * l" and "((t - 1) * P) * l < m * l"
      by (simp_all add: Mx_def TLP_def LP_def algebra_simps)
    with l have "m < t * P" and "(t - 1) * P < m" by simp_all
    then show ?thesis by simp
  qed
  then have "(- t) * P \<le> - m" and "- m < (- t + 1) * P" by (simp_all add: algebra_simps)
  then have "(- m) div P = - t"
    using P by (intro int_div_pos_eq [where r = "- m - (- t) * P"]) (simp_all add: algebra_simps)
  then show ?thesis by simp
qed

lemma ceil_quot_exact:
  assumes "0 \<le> c" and "c < 2 ^ 53" and "1 \<le> l" and "l \<le> 2 ^ 53"
  shows "ceil_quot c l = - ((- c) div l)"
proof (cases "c = 0")
  case True
  then show ?thesis by (simp add: ceil_quot_def)
next
  case False
  with assms have c: "0 < c" and l: "0 < l" by simp_all
  define La where "La = bit_length (nat c)"
  define Lb where "Lb = bit_length (nat l)"
  define d where "d = int La - int Lb"
  define k where "k = (if l * 2 ^ nat d \<le> c * 2 ^ nat (- d) then d else d - 1)"
  define E where "E = nat (52 - k)"
  define P :: int where "P = 2 ^ E"
  note bc = bit_length_int [OF c, folded La_def]
  note bl = bit_length_int [OF l, folded Lb_def]
  from bc(1) assms(2) have "(2::int) ^ (La - 1) < 2 ^ 53" by (rule le_less_trans)
  then have "La - 1 < 53" by (rule power_less_imp_less_exp [rotated]) simp
  then have La: "La \<le> 53" by simp
  from bl(1) assms(4) have "(2::int) ^ (Lb - 1) \<le> 2 ^ 53" by (rule order_trans)
  then have "Lb - 1 \<le> 53" by (rule power_le_imp_le_exp [rotated]) simp
  then have Lb: "Lb \<le> 54" by simp
  from La Lb bc(3) bl(3) have d: "- 53 \<le> d" "d \<le> 52" by (simp_all add: d_def)
  then have k: "- 54 \<le> k" "k \<le> 52" by (simp_all add: k_def)
  have P0: "0 < P" by (simp add: P_def)
  have P2: "2 * P = 2 ^ nat (53 - k)"
  proof -
    from k have "nat (53 - k) = Suc E" by (simp add: E_def)
    then show ?thesis by (simp add: P_def)
  qed
  have lP: "l < 2 * P"
  proof (cases "l * 2 ^ nat d \<le> c * 2 ^ nat (- d)")
    case True
    then have kd: "k = d" by (simp add: k_def)
    show ?thesis
    proof (cases "0 \<le> d")
      case True
      with \<open>l * 2 ^ nat d \<le> c * 2 ^ nat (- d)\<close> have "l * 2 ^ nat d \<le> c" by simp
      with assms(2) have "l * 2 ^ nat d < 2 ^ 53" by simp
      moreover from True d have "53 = nat (53 - d) + nat d" by simp
      then have "(2::int) ^ 53 = 2 ^ nat (53 - d) * 2 ^ nat d" by (simp only: power_add)
      ultimately have "l * 2 ^ nat d < 2 ^ nat (53 - d) * 2 ^ nat d" by simp
      then have "l < 2 ^ nat (53 - d)" by (simp only: mult_less_cancel_right) simp
      then show ?thesis by (simp add: P2 kd)
    next
      case False
      with \<open>l * 2 ^ nat d \<le> c * 2 ^ nat (- d)\<close> have "l \<le> c * 2 ^ nat (- d)" by simp
      also from assms(2) have "\<dots> < 2 ^ 53 * 2 ^ nat (- d)" by simp
      also from False have "\<dots> = 2 ^ nat (53 - d)"
        by (simp only: power_add [symmetric]) (simp add: nat_add_distrib [symmetric])
      finally show ?thesis by (simp add: P2 kd)
    qed
  next
    case False
    then have kd: "k = d - 1" by (simp add: k_def)
    from La bl(3) have "Lb \<le> nat (54 - d)" by (simp add: d_def)
    then have "(2::int) ^ Lb \<le> 2 ^ nat (54 - d)" by (intro power_increasing) simp_all
    with bl(2) have "l < 2 ^ nat (54 - d)" by (rule less_le_trans)
    then show ?thesis by (simp add: P2 kd)
  qed
  from k have e: "max (k - 52) (- 1074) = k - 52" "nat (k - 52) = 0" "nat (- (k - 52)) = E"
    by (simp_all add: E_def)
  from c l have sg: "\<bar>c\<bar> = c" "\<bar>l\<bar> = l" "sgn c = 1" "sgn l = 1" by simp_all
  have "ceil_quot c l = - ((- round_even (c * P) l) div P)"
    using False
    by (simp add: ceil_quot_def Let_def sg La_def [symmetric] Lb_def [symmetric] d_def [symmetric]
          k_def [symmetric] e P_def E_def)
  also have "\<dots> = - ((- c) div l)"
    by (rule ceil_of_rounded [OF l P0 lP refl refl])
  finally show ?thesis .
qed

section \<open>The auth middleware\<close>



text \<open>
  C8. The header token is the second space-separated piece of the Authorization header.
  When it is present (non-empty) and the session cookie is present too, the token handed to
  \<open>jwt.verify\<close> is the header token.\<close>

theorem header_precedence:
  "(authorization req = Some (scheme @ '' '' @ t) \<and> CHR '' '' \<notin> set scheme \<and> CHR '' '' \<notin> set t
      \<longrightarrow> headerToken req = Some t)
   \<and> (headerToken req = Some t \<and> t \<noteq> [] \<and> cookieToken ev req = Some c \<longrightarrow>
        token ev req = Some t
        \<and> authenticateToken ev req k h =
            (case jwt_verify ev t of
               Inl err \<Rightarrow> status_json 401 (message ''Invalid token'') h
             | Inr decoded \<Rightarrow> k decoded h))"
  by (auto simp: headerToken_def js_or_def split_prefix split_no_sep token_def authenticateToken_def
        split: sum.splits)

theorem header_precedence_witness:
  "token test_env (request0\<lparr>authorization := Some ''Bearer token-of-1'',
                             cookies := Some [(''test_token'', ''token-of-2'')]\<rparr>) = Some ''token-of-1''
   \<and> queries (snd (delete_posts test_env mem_store
        (request0\<lparr>authorization := Some ''Bearer token-of-1'',
                  cookies := Some [(''test_token'', ''token-of-2'')], param_id := ''1''\<rparr>) (start mem0)))
       = [PostsDelete ''1'' 1]"
proof -
  let ?req = "request0\<lparr>authorization := Some ''Bearer token-of-1'',
                        cookies := Some [(''test_token'', ''token-of-2'')], param_id := ''1''\<rparr>"
  have a: "authorization ?req = Some (''Bearer'' @ '' '' @ ''token-of-1'') \<and> CHR '' '' \<notin> set ''Bearer''
           \<and> CHR '' '' \<notin> set ''token-of-1''" by simp
  have c: "cookieToken test_env ?req = Some ''token-of-2''"
    by (simp add: cookieToken_def test_env_def)
  note th = header_precedence [of ?req "''Bearer''" "''token-of-1''" test_env "''token-of-2''"
       "delete_post mem_store ?req" "start mem0"]
  from th a have ht: "headerToken ?req = Some ''token-of-1''" by blast
  with th c have tk: "token test_env ?req = Some ''token-of-1''"
    and run: "authenticateToken test_env ?req (delete_post mem_store ?req) (start mem0) =
            (case jwt_verify test_env ''token-of-1'' of
               Inl err \<Rightarrow> status_json 401 (message ''Invalid token'') (start mem0)
             | Inr decoded \<Rightarrow> delete_post mem_store ?req decoded (start mem0))" by simp_all
  have "queries (snd (delete_posts test_env mem_store ?req (start mem0))) = [PostsDelete ''1'' 1]"
    unfolding delete_posts_def run
    by (simp add: test_env_def delete_post_def io_defs start_def mem_store_def split: prod.splits)
  moreover have "token test_env (request0\<lparr>authorization := Some ''Bearer token-of-1'',
                             cookies := Some [(''test_token'', ''token-of-2'')]\<rparr>) = Some ''token-of-1''"
  proof -
    have "authorization (request0\<lparr>authorization := Some ''Bearer token-of-1'',
                             cookies := Some [(''test_token'', ''token-of-2'')]\<rparr>)
            = Some (''Bearer'' @ '' '' @ ''token-of-1'')" by simp
    then have "headerToken (request0\<lparr>authorization := Some ''Bearer token-of-1'',
                             cookies := Some [(''test_token'', ''token-of-2'')]\<rparr>) = Some ''token-of-1''"
      by (rule headerToken_bearer) simp_all
    then show ?thesis by (simp add: token_def js_or_def)
  qed
  ultimately show ?thesis by simp
qed

section \<open>Login\<close>

text \<open>
  C6. A login request whose email or password is missing (or empty) is answered 400 "Both
  email and password are required" and issues no store query, leaving the store as it was.
  A request whose email finds an account with a stored password hash and whose password
  does not match that hash is answered 400 "Invalid credentials". A request whose email
  finds an account with no stored password (an account created by the Google login) is
  answered 400 "This account uses Google login. Please sign in with Google.", whatever
  the password, by the guard of lines 215 to 220, which comes before the comparison.\<close>

theorem login_rejections:
  "(\<not> truthy (b_email req) \<or> \<not> truthy (b_password req) \<longrightarrow>
      login ev st req (start s) =
        (Inr (), \<lparr>db = s, queries = [],
                  replies = [(400, message ''Both email and password are required'')],
                  set_cookies = [], raised = []\<rparr>))
   \<and> (b_email req = Some e \<and> e \<noteq> [] \<and> b_password req = Some pw \<and> pw \<noteq> []
        \<and> users_by_email st e s = (\<lparr>data = Some u, error = None\<rparr>, s')
        \<and> u_password u = Some hash \<and> hash \<noteq> [] \<and> \<not> bcrypt_compare ev pw hash \<longrightarrow>
      login ev st req (start s) =
        (Inr (), \<lparr>db = s', queries = [UsersByEmail e],
                  replies = [(400, message ''Invalid credentials'')],
                  set_cookies = [], raised = []\<rparr>))
   \<and> (b_email req = Some e \<and> e \<noteq> [] \<and> b_password req = Some pw \<and> pw \<noteq> []
        \<and> users_by_email st e s = (\<lparr>data = Some u, error = None\<rparr>, s')
        \<and> \<not> truthy (u_password u) \<longrightarrow>
      login ev st req (start s) =
        (Inr (), \<lparr>db = s', queries = [UsersByEmail e],
                  replies = [(400, message
                     ''This account uses Google login. Please sign in with Google.'')],
                  set_cookies = [], raised = []\<rparr>))"
  by (auto simp: login_def io_defs start_def)

theorem login_rejections_witness:
  "replies (snd (login test_env mem_store (request0\<lparr>b_email := Some ''ann@example.com''\<rparr>) (start mem0)))
     = [(400, message ''Both email and password are required'')]
   \<and> queries (snd (login test_env mem_store (request0\<lparr>b_email := Some ''ann@example.com''\<rparr>) (start mem0))) = []
   \<and> replies (snd (login test_env mem_store
        (request0\<lparr>b_email := Some ''ann@example.com'', b_password := Some ''guess''\<rparr>) (start mem0)))
     = [(400, message ''Invalid credentials'')]
   \<and> replies (snd (login test_env mem_store
        (request0\<lparr>b_email := Some ''carol@example.com'', b_password := Some ''guess''\<rparr>)
        (start (mem0\<lparr>m_users := [ann, bob, carol]\<rparr>))))
     = [(400, message ''This account uses Google login. Please sign in with Google.'')]"
proof -
  let ?r1 = "request0\<lparr>b_email := Some ''ann@example.com''\<rparr>"
  let ?r2 = "request0\<lparr>b_email := Some ''ann@example.com'', b_password := Some ''guess''\<rparr>"
  let ?r3 = "request0\<lparr>b_email := Some ''carol@example.com'', b_password := Some ''guess''\<rparr>"
  let ?m = "mem0\<lparr>m_users := [ann, bob, carol]\<rparr>"
  have a: "\<not> truthy (b_email ?r1) \<or> \<not> truthy (b_password ?r1)"
    by (simp add: request0_def)
  have b: "b_email ?r2 = Some ''ann@example.com'' \<and> ''ann@example.com'' \<noteq> []
           \<and> b_password ?r2 = Some ''guess'' \<and> ''guess'' \<noteq> []
           \<and> users_by_email mem_store ''ann@example.com'' mem0 = (\<lparr>data = Some ann, error = None\<rparr>, mem0)
           \<and> u_password ann = Some ''hash:secret'' \<and> ''hash:secret'' \<noteq> []
           \<and> \<not> bcrypt_compare test_env ''guess'' ''hash:secret''"
    by (simp add: mem_store_def mem0_def tick_def single_def ann_def bob_def test_env_def)
  have c: "b_email ?r3 = Some ''carol@example.com'' \<and> ''carol@example.com'' \<noteq> []
           \<and> b_password ?r3 = Some ''guess'' \<and> ''guess'' \<noteq> []
           \<and> users_by_email mem_store ''carol@example.com'' ?m = (\<lparr>data = Some carol, error = None\<rparr>, ?m)
           \<and> \<not> truthy (u_password carol)"
    by (simp add: mem_store_def mem0_def tick_def single_def ann_def bob_def carol_def)
  from login_rejections [of ?r1 test_env mem_store mem0] a
  have 1: "login test_env mem_store ?r1 (start mem0) =
        (Inr (), \<lparr>db = mem0, queries = [],
                  replies = [(400, message ''Both email and password are required'')],
                  set_cookies = [], raised = []\<rparr>)" by blast
  from login_rejections [of ?r2 test_env mem_store mem0 "''ann@example.com''" "''guess''" ann mem0 "''hash:secret''"] b
  have 2: "login test_env mem_store ?r2 (start mem0) =
        (Inr (), \<lparr>db = mem0, queries = [UsersByEmail ''ann@example.com''],
                  replies = [(400, message ''Invalid credentials'')],
                  set_cookies = [], raised = []\<rparr>)" by blast
  from login_rejections [where req = ?r3 and ev = test_env and st = mem_store and s = ?m
      and e = "''carol@example.com''" and pw = "''guess''" and u = carol and s' = ?m] c
  have 3: "login test_env mem_store ?r3 (start ?m) =
        (Inr (), \<lparr>db = ?m, queries = [UsersByEmail ''carol@example.com''],
                  replies = [(400, message
                     ''This account uses Google login. Please sign in with Google.'')],
                  set_cookies = [], raised = []\<rparr>)" by blast
  show ?thesis unfolding 1 2 3 by simp
qed

text \<open>
  So "correct email and wrong password gives Invalid credentials" does not hold for every
  request: Carol's account has no password, her email is found, and any password is
  answered by the Google-login message.\<close>

theorem login_oauth_only_counterexample:
  "users_by_email mem_store ''carol@example.com'' (mem0\<lparr>m_users := [ann, bob, carol]\<rparr>)
     = (\<lparr>data = Some carol, error = None\<rparr>, mem0\<lparr>m_users := [ann, bob, carol]\<rparr>)
   \<and> u_password carol = None
   \<and> login test_env mem_store
        (request0\<lparr>b_email := Some ''carol@example.com'', b_password := Some ''guess''\<rparr>)
        (start (mem0\<lparr>m_users := [ann, bob, carol]\<rparr>))
     = (Inr (), \<lparr>db = mem0\<lparr>m_users := [ann, bob, carol]\<rparr>,
                 queries = [UsersByEmail ''carol@example.com''],
                 replies = [(400, message
                    ''This account uses Google login. Please sign in with Google.'')],
                 set_cookies = [], raised = []\<rparr>)
   \<and> replies (snd (login test_env mem_store
        (request0\<lparr>b_email := Some ''carol@example.com'', b_password := Some ''guess''\<rparr>)
        (start (mem0\<lparr>m_users := [ann, bob, carol]\<rparr>))))
     \<noteq> [(400, message ''Invalid credentials'')]"
proof -
  let ?r = "request0\<lparr>b_email := Some ''carol@example.com'', b_password := Some ''guess''\<rparr>"
  let ?m = "mem0\<lparr>m_users := [ann, bob, carol]\<rparr>"
  have u: "users_by_email mem_store ''carol@example.com'' ?m = (\<lparr>data = Some carol, error = None\<rparr>, ?m)"
    by (simp add: mem_store_def mem0_def tick_def single_def ann_def bob_def carol_def)
  have p: "u_password carol = None" by (simp add: carol_def)
  have r: "b_email ?r = Some ''carol@example.com''" "b_password ?r = Some ''guess''"
    by simp_all
  have l: "login test_env mem_store ?r (start ?m) =
        (Inr (), \<lparr>db = ?m, queries = [UsersByEmail ''carol@example.com''],
                  replies = [(400, message
                     ''This account uses Google login. Please sign in with Google.'')],
                  set_cookies = [], raised = []\<rparr>)"
    by (simp add: login_def io_defs start_def r u p)
  show ?thesis unfolding l u p by (simp add: message_def)
qed

section \<open>Handlers that reply more than once\<close>

text \<open>
  C10. When the store reports an error for the update, the PUT handler executes the 400
  reply and then the 200 reply as well (which throws, the headers being sent, and so does
  the 500 reply of the catch block). When the insert of a registration fails with a null
  row, the register handler executes the 500 reply, goes on to read the null row for the
  201 body, which raises a TypeError, and executes the catch block's 500 reply.\<close>

theorem double_reply:
  "(truthy (b_title req) \<and> truthy (b_body req)
      \<and> posts_update st (js_str (b_title req)) (js_str (b_body req)) (param_id req) (c_id usr) s = (r, s')
      \<and> error r = Some e \<longrightarrow>
      update_post st req usr (start s) =
        (Inl ERR_HTTP_HEADERS_SENT,
         \<lparr>db = s',
          queries = [PostsUpdate (js_str (b_title req)) (js_str (b_body req)) (param_id req) (c_id usr)],
          replies = [(400, message ''Not authorized to update this post ''),
                     (200, JObj [(''updatedPost'', opt_post_json (data r))]),
                     (500, message ''internal server error'')],
          set_cookies = [],
          raised = [ERR_HTTP_HEADERS_SENT, ERR_HTTP_HEADERS_SENT]\<rparr>))
   \<and> (truthy (b_name req) \<and> truthy (b_email req) \<and> truthy (b_password req)
      \<and> users_by_email st (js_str (b_email req)) s = (r1, s1) \<and> data r1 = None
      \<and> users_insert st \<lparr>nu_name = js_str (b_name req), nu_email = js_str (b_email req),
                           nu_password = Some (bcrypt_hash ev (js_str (b_password req)))\<rparr> s1 = (r2, s2)
      \<and> error r2 = Some e2 \<and> data r2 = None \<longrightarrow>
      register ev st req (start s) =
        (Inl ERR_HTTP_HEADERS_SENT,
         \<lparr>db = s2,
          queries = [UsersByEmail (js_str (b_email req)),
                     UsersInsert \<lparr>nu_name = js_str (b_name req), nu_email = js_str (b_email req),
                           nu_password = Some (bcrypt_hash ev (js_str (b_password req)))\<rparr>],
          replies = [(500, message ''error creating user''),
                     (500, JObj [(''error'', JStr ''internal server error'')])],
          set_cookies = [],
          raised = [TypeError ''Cannot read properties of null'', ERR_HTTP_HEADERS_SENT]\<rparr>))"
  by (auto simp: update_post_def register_def io_defs start_def Let_def)

theorem double_reply_witness:
  "replies (snd (update_post mem_store
       (request0\<lparr>param_id := ''1'', b_title := Some ''Mine now'', b_body := Some ''text''\<rparr>)
       \<lparr>c_id = 2, c_email = ''bob@example.com''\<rparr> (start mem0)))
     = [(400, message ''Not authorized to update this post ''),
        (200, JObj [(''updatedPost'', JNull)]),
        (500, message ''internal server error'')]
   \<and> replies (snd (register test_env mem_store
       (request0\<lparr>b_name := Some ''Carol'', b_email := Some ''carol@example.com'',
                 b_password := Some ''pw''\<rparr>) (start racing)))
     = [(500, message ''error creating user''),
        (500, JObj [(''error'', JStr ''internal server error'')])]"
proof -
  let ?r1 = "request0\<lparr>param_id := ''1'', b_title := Some ''Mine now'', b_body := Some ''text''\<rparr>"
  let ?u = "\<lparr>c_id = 2, c_email = ''bob@example.com''\<rparr>"
  let ?r2 = "request0\<lparr>b_name := Some ''Carol'', b_email := Some ''carol@example.com'',
                 b_password := Some ''pw''\<rparr>"
  let ?mid = "mem0\<lparr>m_pending := [[\<lparr>nu_name = ''Carol'', nu_email = ''carol@example.com'',
                                        nu_password = None\<rparr>]]\<rparr>"
  let ?fin = "mem0\<lparr>m_users := [ann, bob, carol]\<rparr>"
  have a: "truthy (b_title ?r1) \<and> truthy (b_body ?r1)
      \<and> posts_update mem_store (js_str (b_title ?r1)) (js_str (b_body ?r1)) (param_id ?r1) (c_id ?u) mem0
           = (\<lparr>data = None, error = Some no_rows\<rparr>, mem0)
      \<and> error \<lparr>data = None :: post option, error = Some no_rows\<rparr> = Some no_rows"
    by (simp add: mem_store_def mem0_def tick_def first_post_def owned_def parseInt_1)
  have b: "truthy (b_name ?r2) \<and> truthy (b_email ?r2) \<and> truthy (b_password ?r2)
      \<and> users_by_email mem_store (js_str (b_email ?r2)) racing = (\<lparr>data = None, error = Some no_rows\<rparr>, ?mid) 
      \<and> data \<lparr>data = None :: user option, error = Some no_rows\<rparr> = None
      \<and> users_insert mem_store \<lparr>nu_name = js_str (b_name ?r2), nu_email = js_str (b_email ?r2),
                           nu_password = Some (bcrypt_hash test_env (js_str (b_password ?r2)))\<rparr> ?mid
           = (\<lparr>data = None, error = Some duplicate_key\<rparr>, ?fin)
      \<and> error \<lparr>data = None :: user option, error = Some duplicate_key\<rparr> = Some duplicate_key
      \<and> data \<lparr>data = None :: user option, error = Some duplicate_key\<rparr> = None"
    by (simp add: mem_store_def mem0_def tick_def single_def insert_user_def ann_def bob_def carol_def
          racing_def Let_def)
  note th1 = double_reply [where req = ?r1 and st = mem_store and usr = ?u and s = mem0
       and r = "\<lparr>data = None, error = Some no_rows\<rparr>" and s' = mem0 and e = no_rows]
  note th2 = double_reply [where req = ?r2 and st = mem_store and s = racing and ev = test_env
       and ?r1.0 = "\<lparr>data = None, error = Some no_rows\<rparr>" and ?s1.0 = ?mid
       and ?r2.0 = "\<lparr>data = None, error = Some duplicate_key\<rparr>" and ?s2.0 = ?fin
       and ?e2.0 = duplicate_key]
  from th1 a have 1: "update_post mem_store ?r1 ?u (start mem0) =
        (Inl ERR_HTTP_HEADERS_SENT,
         \<lparr>db = mem0,
          queries = [PostsUpdate (js_str (b_title ?r1)) (js_str (b_body ?r1)) (param_id ?r1) (c_id ?u)],
          replies = [(400, message ''Not authorized to update this post ''),
                     (200, JObj [(''updatedPost'', opt_post_json (data \<lparr>data = None, error = Some no_rows\<rparr>))]),
                     (500, message ''internal server error'')],
          set_cookies = [],
          raised = [ERR_HTTP_HEADERS_SENT, ERR_HTTP_HEADERS_SENT]\<rparr>)" by blast
  from th2 b have 2: "register test_env mem_store ?r2 (start racing) =
        (Inl ERR_HTTP_HEADERS_SENT,
         \<lparr>db = ?fin,
          queries = [UsersByEmail (js_str (b_email ?r2)),
                     UsersInsert \<lparr>nu_name = js_str (b_name ?r2), nu_email = js_str (b_email ?r2),
                           nu_password = Some (bcrypt_hash test_env (js_str (b_password ?r2)))\<rparr>],
          replies = [(500, message ''error creating user''),
                     (500, JObj [(''error'', JStr ''internal server error'')])],
          set_cookies = [],
          raised = [TypeError ''Cannot read properties of null'', ERR_HTTP_HEADERS_SENT]\<rparr>)" by blast
  show ?thesis unfolding 1 2 by (simp add: opt_post_json_def)
qed

section \<open>Pagination of the post listing\<close>

lemma range_exact:
  assumes "page_of req = Fin p" and "limit_of req = Fin l"
    and "\<bar>(p - 1) * l\<bar> + \<bar>l\<bar> < 2 ^ 53"
  shows "range_start req = Fin ((p - 1) * l)"
    and "range_end req = Fin ((p - 1) * l + l - 1)"
proof -
  from limit_of_le_100 [of req] assms(2) have l0: "l \<noteq> 0" by simp
  then have "1 \<le> \<bar>l\<bar>" by simp
  then have "\<bar>p - 1\<bar> * 1 \<le> \<bar>p - 1\<bar> * \<bar>l\<bar>" by (intro mult_left_mono) simp_all
  then have "\<bar>p - 1\<bar> \<le> \<bar>(p - 1) * l\<bar>" by (simp add: abs_mult)
  with assms(3) have a: "\<bar>p + - 1\<bar> \<le> 2 ^ 53" by simp
  from assms(3) have b: "\<bar>(p - 1) * l\<bar> \<le> 2 ^ 53" by simp
  from assms(3) have c: "\<bar>(p - 1) * l + l\<bar> \<le> 2 ^ 53" by linarith
  from assms(3) have d: "\<bar>(p - 1) * l + l + - 1\<bar> \<le> 2 ^ 53" by linarith
  have s: "js_sub (Fin p) (Fin 1) = Fin (p - 1)"
    using a by (simp add: js_sub_def to_double_exact)
  show st: "range_start req = Fin ((p - 1) * l)"
    using b by (simp add: range_start_def assms(1,2) s to_double_exact)
  show "range_end req = Fin ((p - 1) * l + l - 1)"
    using c d by (simp add: range_end_def st assms(2) js_sub_def to_double_exact)
qed

lemma get_posts_page_0:
  "get_posts st (req\<lparr>q_page := Some ''0''\<rparr>) = get_posts st (req\<lparr>q_page := Some ''1''\<rparr>)"
proof -
  have "page_of (req\<lparr>q_page := Some ''0''\<rparr>) = page_of (req\<lparr>q_page := Some ''1''\<rparr>)"
    by (simp add: page_of_def parseInt_0 parseInt_1 num_or_def)
  then show ?thesis
    by (simp add: get_posts_def range_start_def range_end_def limit_of_def search_of_def
          posts_body_def cong: option.case_cong)
qed

lemma get_posts_run:
  assumes "posts_range st (search_of req) (range_start req) (range_end req) s = (r, s')"
  shows "get_posts st req (start s) =
           (Inr (), \<lparr>db = s', queries = [PostsRange (search_of req) (range_start req) (range_end req)],
                     replies = [case rerror r of
                                  Some e \<Rightarrow> (500, JObj [(''message'', JStr ''error fetching posts''),
                                                         (''error'', db_error_json e)])
                                | None \<Rightarrow> (200, posts_body req r)],
                     set_cookies = [], raised = []\<rparr>)"
proof (cases "rerror r")
  case None
  with assms show ?thesis by (simp add: get_posts_def io_defs start_def)
next
  case (Some e)
  with assms show ?thesis by (simp add: get_posts_def io_defs start_def)
qed

lemma get_posts_queries:
  "queries (snd (get_posts st req (start s))) =
     [PostsRange (search_of req) (range_start req) (range_end req)]"
proof -
  obtain r s' where "posts_range st (search_of req) (range_start req) (range_end req) s = (r, s')"
    by (cases "posts_range st (search_of req) (range_start req) (range_end req) s")
  from get_posts_run [OF this] show ?thesis by simp
qed

lemma get_posts_success:
  assumes "posts_range st (search_of req) (range_start req) (range_end req) s = (r, s')"
    and "rerror r = None"
  shows "replies (snd (get_posts st req (start s))) =
           [(200, JObj [(''posts'', (case rows r of None \<Rightarrow> JNull | Some ps \<Rightarrow> JArr (map post_json ps))),
                        (''totalPosts'', num_json (count_of r)),
                        (''totalPages'', num_json (ceil_div (count_of r) (limit_of req))),
                        (''currentPage'', num_json (page_of req))])]"
  using assms(2) by (simp add: get_posts_run [OF assms(1)] posts_body_def)

lemma total_pages_exact:
  assumes "rcount r = Some c" and "0 \<le> c" and "c < 2 ^ 53"
    and "limit_of req = Fin l" and "1 \<le> l"
  shows "count_of r = Fin c"
    and "ceil_div (count_of r) (limit_of req) = Fin \<lceil>real_of_int c / real_of_int l\<rceil>"
proof -
  from assms(2,3) have "\<bar>c\<bar> \<le> 2 ^ 53" by simp
  then show c: "count_of r = Fin c"
    by (simp add: count_of_def assms(1) to_double_exact num_or_def)
  from limit_of_le_100 [of req] assms(4) have "l \<le> 100" by simp
  then have "l \<le> 2 ^ 53" by simp
  from ceil_quot_exact [OF assms(2,3,5) this] assms(5)
  show "ceil_div (count_of r) (limit_of req) = Fin \<lceil>real_of_int c / real_of_int l\<rceil>"
    by (simp add: c assms(4) ceiling_divide_eq_div)
qed

lemma exact_query:
  assumes "page_of req = Fin p" and "limit_of req = Fin l"
    and "\<bar>(p - 1) * l\<bar> + \<bar>l\<bar> < 2 ^ 53"
  shows "queries (snd (get_posts st req (start s))) =
           [PostsRange (search_of req) (Fin ((p - 1) * l)) (Fin ((p - 1) * l + l - 1))]"
  by (simp add: get_posts_queries range_exact [OF assms])

lemma decimal_query:
  assumes "q_page req = Some (decimal p)" and "q_limit req = Some (decimal l)"
    and "1 \<le> p" and "1 \<le> l" and "p * 100 < 2 ^ 53"
  shows "queries (snd (get_posts st req (start s))) =
           [PostsRange (search_of req)
              (Fin ((int p - 1) * min (int l) 100))
              (Fin ((int p - 1) * min (int l) 100 + min (int l) 100 - 1))]
         \<and> page_of req = Fin (int p) \<and> limit_of req = Fin (min (int l) 100)"
proof -
  from assms(5) have "p \<le> 2 ^ 53" by simp
  from page_decimal [OF assms(1,3) this] have pg: "page_of req = Fin (int p)" .
  from limit_decimal [OF assms(2,4)] have lm: "limit_of req = Fin (min (int l) 100)" .
  have "(int p - 1) * min (int l) 100 + min (int l) 100 = int p * min (int l) 100"
    by (simp add: algebra_simps)
  moreover have "0 \<le> (int p - 1) * min (int l) 100" using assms(3,4) by simp
  moreover have "int p * min (int l) 100 \<le> int p * 100" by (intro mult_left_mono) simp_all
  moreover have "int p * 100 < 2 ^ 53"
  proof -
    from assms(5) have "int (p * 100) < int (2 ^ 53)" by (simp only: of_nat_less_iff)
    then show ?thesis by simp
  qed
  ultimately have "\<bar>(int p - 1) * min (int l) 100\<bar> + \<bar>min (int l) 100\<bar> < 2 ^ 53"
    using assms(4) by simp
  from exact_query [OF pg lm this] pg lm show ?thesis by simp
qed

lemma at_most_100:
  assumes "posts_range st (search_of req) (range_start req) (range_end req) s = (r, s')"
    and "rerror r = None" and "rows r = Some ps"
    and "page_of req = Fin p" and "limit_of req = Fin l"
    and "\<bar>(p - 1) * l\<bar> + \<bar>l\<bar> < 2 ^ 53"
    and "range_start req = Fin a" and "range_end req = Fin b"
    and "int (length ps) \<le> max 0 (b - a + 1)"
  shows "(\<exists>rest. replies (snd (get_posts st req (start s))) =
            [(200, JObj ((''posts'', JArr (map post_json ps)) # rest))])
         \<and> length ps \<le> 100"
proof -
  from range_exact [OF assms(4,5,6)] assms(7,8) have "b - a + 1 = l" by simp
  moreover from limit_of_le_100 [of req] assms(5) have "l \<le> 100" by simp
  ultimately have "length ps \<le> 100" using assms(9) by simp
  moreover have "\<exists>rest. replies (snd (get_posts st req (start s))) =
            [(200, JObj ((''posts'', JArr (map post_json ps)) # rest))]"
    by (simp add: get_posts_success [OF assms(1,2)] assms(3))
  ultimately show ?thesis by blast
qed

lemma exact_reply:
  assumes "posts_range st (search_of req) (range_start req) (range_end req) s = (r, s')"
    and "rerror r = None" and "rcount r = Some c" and "0 \<le> c" and "c < 2 ^ 53"
    and "page_of req = Fin p" and "limit_of req = Fin l" and "1 \<le> l"
  shows "replies (snd (get_posts st req (start s))) =
           [(200, JObj [(''posts'', (case rows r of None \<Rightarrow> JNull | Some ps \<Rightarrow> JArr (map post_json ps))),
                        (''totalPosts'', JNum c),
                        (''totalPages'', JNum \<lceil>real_of_int c / real_of_int l\<rceil>),
                        (''currentPage'', JNum p)])]"
proof -
  note t = total_pages_exact [OF assms(3,4,5,7,8)]
  show ?thesis
    apply (simp only: get_posts_success [OF assms(1,2)])
    apply (simp only: t(2))
    apply (simp add: t(1) assms(6))
    done
qed

lemma white_prefix_7: "white_prefix ''7'' = 0"
  by (simp add: white_prefix_def)

lemma white_prefix_nbsp: "white_prefix (CHR 0xC2 # CHR 0xA0 # cs) = 2"
  by (simp add: white_prefix_def)

lemma parseInt_nbsp: "parseInt (Some [CHR 0xC2, CHR 0xA0, CHR ''7'']) = Fin 7"
proof -
  have "skip_white [CHR 0xC2, CHR 0xA0, CHR ''7''] = skip_white ''7''"
    by (subst skip_white.simps) (simp add: white_prefix_nbsp)
  also have "\<dots> = ''7''" by (rule skip_white_none) (simp add: white_prefix_def)
  finally show ?thesis by (simp add: parse_defs)
qed

lemma bit_length_2_53: "bit_length 9007199254740993 = 54"
  by (simp add: bit_length.simps)

lemma parseInt_beyond: "parseInt (Some ''9007199254740993'') = Fin 9007199254740992"
  by (simp add: parseInt_def is_digit_def digit_of_def digits_value_def skip_white_none white_prefix_def
        to_double_def bit_length_2_53 round_even_def Let_def)

lemma page_nbsp: "page_of (req\<lparr>q_page := Some [CHR 0xC2, CHR 0xA0, CHR ''7'']\<rparr>) = Fin 7"
  by (simp add: page_of_cases(1) parseInt_nbsp)

lemma page_beyond:
  "page_of (req\<lparr>q_page := Some ''9007199254740993''\<rparr>) = Fin 9007199254740992"
  by (simp add: page_of_cases(1) parseInt_beyond)

lemma range_beyond:
  "range_start (req\<lparr>q_page := Some ''9007199254740993'', q_limit := None\<rparr>) = Fin 90071992547409904"
  "range_end (req\<lparr>q_page := Some ''9007199254740993'', q_limit := None\<rparr>) = Fin 90071992547409920"
proof -
  let ?req = "req\<lparr>q_page := Some ''9007199254740993'', q_limit := None\<rparr>"
  have p: "page_of ?req = Fin 9007199254740992"
    by (simp add: page_of_cases(1) parseInt_beyond)
  have l: "limit_of ?req = Fin 10"
    by (simp add: limit_of_cases(3) parseInt_undefined)
  have b: "bit_length 90071992547409910 = 57" "bit_length 90071992547409914 = 57"
    "bit_length 90071992547409919 = 57"
    by (simp_all add: bit_length.simps)
  show s: "range_start ?req = Fin 90071992547409904"
    by (simp add: range_start_def p l js_sub_def to_double_def b round_even_def Let_def)
  show "range_end ?req = Fin 90071992547409920"
    by (simp add: range_end_def s l js_sub_def to_double_def b round_even_def Let_def)
qed

text \<open>
  C4. For every GET /posts request, with JavaScript's numbers (doubles; \<open>parseInt\<close>
  skips leading white space, Unicode's included, and rounds a numeral beyond \<open>2^53\<close>
  to the nearest double). The effective page is never below 1 and never NaN: it is the
  parsed page when that is at least 1, and 1 when the parsed page is below 1 or not a
  number; so the decimal page \<open>k\<close> is \<open>k\<close> for \<open>1 \<le> k \<le> 2^53\<close>, a page
  \<open>7\<close> after a no-break space is 7, the page \<open>2^53 + 1\<close> is \<open>2^53\<close> (with
  the range 90071992547409904 to 90071992547409920 at the default limit), and
  \<open>page=0\<close> is handled exactly as \<open>page=1\<close>. The effective limit never exceeds
  100 and is never NaN: it is \<open>min n 100\<close> for a parsed limit \<open>n\<close> other than 0,
  and 10 when the parameter is absent, not a number or 0; so the decimal limit \<open>k\<close>
  is \<open>min k 100\<close>, which is 100 for \<open>limit=1000\<close>. The handler issues exactly one
  store query, for the rows from \<open>(page-1)*limit\<close> to
  \<open>(page-1)*limit + limit - 1\<close> in double arithmetic, and these are the exact
  integers as long as they stay below \<open>2^53\<close>, as they do for decimal parameters
  with \<open>page * 100 < 2^53\<close>. When the store answers without error, the reply is 200
  with the rows, \<open>totalPosts\<close> the count, \<open>totalPages\<close> \<open>Math.ceil(count / limit)\<close>
  and \<open>currentPage\<close> the effective page; for a count \<open>0 \<le> c < 2^53\<close> and a limit
  of at least 1 these are the exact \<open>c\<close>, \<open>\<lceil>c / limit\<rceil>\<close> and page. And when the
  store returns no more rows than the window it is asked for, the reply holds these rows
  and they are at most 100.\<close>

theorem pagination:
  "\<not> js_lt (page_of req) (Fin 1)
   \<and> page_of req \<noteq> NaN
   \<and> (parseInt (q_page req) = Fin n \<and> 1 \<le> n \<longrightarrow> page_of req = Fin n)
   \<and> (parseInt (q_page req) = Fin n \<and> n < 1 \<longrightarrow> page_of req = Fin 1)
   \<and> (parseInt (q_page req) = NaN \<longrightarrow> page_of req = Fin 1)
   \<and> (q_page req = Some (decimal k) \<and> 1 \<le> k \<and> k \<le> 2 ^ 53 \<longrightarrow> page_of req = Fin (int k))
   \<and> page_of (req\<lparr>q_page := Some [CHR 0xC2, CHR 0xA0, CHR ''7'']\<rparr>) = Fin 7
   \<and> page_of (req\<lparr>q_page := Some ''9007199254740993''\<rparr>) = Fin 9007199254740992
   \<and> range_start (req\<lparr>q_page := Some ''9007199254740993'', q_limit := None\<rparr>)
       = Fin 90071992547409904
   \<and> range_end (req\<lparr>q_page := Some ''9007199254740993'', q_limit := None\<rparr>)
       = Fin 90071992547409920
   \<and> get_posts st (req\<lparr>q_page := Some ''0''\<rparr>) = get_posts st (req\<lparr>q_page := Some ''1''\<rparr>)
   \<and> \<not> js_lt (Fin 100) (limit_of req)
   \<and> limit_of req \<noteq> NaN
   \<and> (parseInt (q_limit req) = Fin n \<and> n \<noteq> 0 \<longrightarrow> limit_of req = Fin (min n 100))
   \<and> (parseInt (q_limit req) = NaN \<or> parseInt (q_limit req) = Fin 0 \<longrightarrow> limit_of req = Fin 10)
   \<and> (q_limit req = None \<longrightarrow> limit_of req = Fin 10)
   \<and> (q_limit req = Some (decimal k) \<and> 1 \<le> k \<longrightarrow> limit_of req = Fin (min (int k) 100))
   \<and> queries (snd (get_posts st req (start s))) =
       [PostsRange (search_of req)
          (js_mul (js_sub (page_of req) (Fin 1)) (limit_of req))
          (js_sub (js_add (js_mul (js_sub (page_of req) (Fin 1)) (limit_of req)) (limit_of req)) (Fin 1))]
   \<and> (page_of req = Fin p \<and> limit_of req = Fin l \<and> \<bar>(p - 1) * l\<bar> + \<bar>l\<bar> < 2 ^ 53 \<longrightarrow>
        queries (snd (get_posts st req (start s))) =
          [PostsRange (search_of req) (Fin ((p - 1) * l)) (Fin ((p - 1) * l + l - 1))])
   \<and> (q_page req = Some (decimal i) \<and> q_limit req = Some (decimal j)
        \<and> 1 \<le> i \<and> 1 \<le> j \<and> i * 100 < 2 ^ 53 \<longrightarrow>
        queries (snd (get_posts st req (start s))) =
          [PostsRange (search_of req)
             (Fin ((int i - 1) * min (int j) 100))
             (Fin ((int i - 1) * min (int j) 100 + min (int j) 100 - 1))]
        \<and> page_of req = Fin (int i) \<and> limit_of req = Fin (min (int j) 100))
   \<and> (posts_range st (search_of req) (range_start req) (range_end req) s = (r, s')
        \<and> rerror r = None \<longrightarrow>
        replies (snd (get_posts st req (start s))) =
          [(200, JObj [(''posts'', (case rows r of None \<Rightarrow> JNull | Some ps \<Rightarrow> JArr (map post_json ps))),
                       (''totalPosts'', num_json (count_of r)),
                       (''totalPages'', num_json (ceil_div (count_of r) (limit_of req))),
                       (''currentPage'', num_json (page_of req))])])
   \<and> (posts_range st (search_of req) (range_start req) (range_end req) s = (r, s')
        \<and> rerror r = None \<and> rcount r = Some c \<and> 0 \<le> c \<and> c < 2 ^ 53
        \<and> page_of req = Fin p \<and> limit_of req = Fin l \<and> 1 \<le> l \<longrightarrow>
        replies (snd (get_posts st req (start s))) =
          [(200, JObj [(''posts'', (case rows r of None \<Rightarrow> JNull | Some ps \<Rightarrow> JArr (map post_json ps))),
                       (''totalPosts'', JNum c),
                       (''totalPages'', JNum \<lceil>real_of_int c / real_of_int l\<rceil>),
                       (''currentPage'', JNum p)])])
   \<and> (posts_range st (search_of req) (range_start req) (range_end req) s = (r, s')
        \<and> rerror r = None \<and> rows r = Some ps
        \<and> page_of req = Fin p \<and> limit_of req = Fin l \<and> \<bar>(p - 1) * l\<bar> + \<bar>l\<bar> < 2 ^ 53
        \<and> range_start req = Fin a \<and> range_end req = Fin b
        \<and> int (length ps) \<le> max 0 (b - a + 1) \<longrightarrow>
        (\<exists>rest. replies (snd (get_posts st req (start s))) =
           [(200, JObj ((''posts'', JArr (map post_json ps)) # rest))])
        \<and> length ps \<le> 100)"
  apply (intro conjI)
                    apply (simp add: page_of_ge_1)
                   apply (simp add: page_of_ge_1)
                  apply (simp add: page_of_cases(1))
                 apply (simp add: page_of_cases(2))
                apply (simp add: page_of_cases(3))
                   apply (simp add: page_decimal)
                  apply (rule page_nbsp)
                 apply (rule page_beyond)
                apply (rule range_beyond(1))
               apply (rule range_beyond(2))
              apply (rule get_posts_page_0)
             apply (simp add: limit_of_le_100)
            apply (simp add: limit_of_le_100)
           apply (simp add: limit_of_cases(1))
          apply (auto simp: limit_of_cases(2,3))[1]
         apply (simp add: limit_of_cases(3) parseInt_undefined)
        apply (simp add: limit_decimal)
       apply (simp add: get_posts_queries range_start_def range_end_def)
      apply (simp add: exact_query)
     apply (intro impI, elim conjE, erule (4) decimal_query)
    apply (intro impI, elim conjE, erule (1) get_posts_success)
   apply (intro impI, elim conjE, erule (7) exact_reply)
  apply (intro impI, elim conjE, erule (8) at_most_100)
  done

text \<open>The reference store returns no more rows than the window it is asked for.\<close>

lemma mem_range_window:
  "rows (mem_range search (Fin a) (Fin b) s) = Some ps \<Longrightarrow> int (length ps) \<le> max 0 (b - a + 1)"
  by (auto simp: mem_range_def Let_def split: if_splits)

theorem pagination_witness:
  "replies (snd (get_posts mem_store (request0\<lparr>q_page := Some ''0'', q_limit := Some ''1000''\<rparr>)
                           (start mem0)))
     = [(200, JObj [(''posts'', JArr [post_json (with_author [ann, bob] first_post)]),
                    (''totalPosts'', JNum 1), (''totalPages'', JNum 1),
                    (''currentPage'', JNum 1)])]
   \<and> queries (snd (get_posts mem_store (request0\<lparr>q_page := Some ''0'', q_limit := Some ''1000''\<rparr>)
                           (start mem0))) = [PostsRange None (Fin 0) (Fin 99)]
   \<and> queries (snd (get_posts mem_store (request0\<lparr>q_page := Some ''7'', q_limit := Some ''7''\<rparr>)
                           (start mem0))) = [PostsRange None (Fin 42) (Fin 48)]"
proof -
  let ?req = "request0\<lparr>q_page := Some ''0'', q_limit := Some ''1000''\<rparr>"
  let ?r = "\<lparr>rows = Some [with_author [ann, bob] first_post], rcount = Some 1, rerror = None\<rparr>"
  let ?req7 = "request0\<lparr>q_page := Some ''7'', q_limit := Some ''7''\<rparr>"
  have p: "page_of ?req = Fin 1" by (simp add: page_of_cases(2) parseInt_0)
  have l: "limit_of ?req = Fin 100" by (simp add: limit_of_cases(1) parseInt_1000)
  have s: "search_of ?req = None" "search_of ?req7 = None"
    by (simp_all add: search_of_def request0_def js_or_def)
  have safe: "\<bar>(1 - 1) * 100\<bar> + \<bar>100\<bar> < (2 ^ 53 :: int)" by simp
  note th = pagination [where req = ?req and st = mem_store and s = mem0 and r = ?r and s' = mem0
       and c = 1 and p = 1 and l = 100]
  from th p l safe have Q: "queries (snd (get_posts mem_store ?req (start mem0))) =
          [PostsRange (search_of ?req) (Fin ((1 - 1) * 100)) (Fin ((1 - 1) * 100 + 100 - 1))]"
    by blast
  have rg: "range_start ?req = Fin 0" "range_end ?req = Fin 99"
    using range_exact [OF p l safe] by simp_all
  have a: "posts_range mem_store (search_of ?req) (range_start ?req) (range_end ?req) mem0 = (?r, mem0)
        \<and> rerror ?r = None \<and> rcount ?r = Some 1 \<and> (0::int) \<le> 1 \<and> (1::int) < 2 ^ 53
        \<and> page_of ?req = Fin 1 \<and> limit_of ?req = Fin 100 \<and> (1::int) \<le> 100"
    by (simp add: s rg p l mem_store_def mem_range_def tick_def mem0_def)
  from th a have R: "replies (snd (get_posts mem_store ?req (start mem0))) =
          [(200, JObj [(''posts'', (case rows ?r of None \<Rightarrow> JNull | Some ps \<Rightarrow> JArr (map post_json ps))),
                       (''totalPosts'', JNum 1),
                       (''totalPages'', JNum \<lceil>real_of_int 1 / real_of_int 100\<rceil>),
                       (''currentPage'', JNum 1)])]"
    by blast
  have c: "\<lceil>real_of_int 1 / real_of_int 100\<rceil> = 1"
    by (rule ceiling_unique) simp_all
  have d7: "decimal 7 = ''7''" by (subst decimal.simps) simp
  have h7: "q_page ?req7 = Some (decimal 7) \<and> q_limit ?req7 = Some (decimal 7)
        \<and> (1::nat) \<le> 7 \<and> (1::nat) \<le> 7 \<and> (7::nat) * 100 < 2 ^ 53"
    by (simp add: d7)
  note th7 = pagination [where req = ?req7 and st = mem_store and s = mem0 and i = 7 and j = 7]
  from th7 h7 have Q7: "queries (snd (get_posts mem_store ?req7 (start mem0))) =
          [PostsRange (search_of ?req7)
             (Fin ((int 7 - 1) * min (int 7) 100))
             (Fin ((int 7 - 1) * min (int 7) 100 + min (int 7) 100 - 1))]"
    by blast
  show ?thesis
    apply (simp only: R Q Q7)
    apply (simp only: c)
    apply (simp add: s)
    done
qed

section \<open>No password in a response\<close>

lemma cookie_names_clean: "\<not> has_field_elems k (map (\<lambda>kv. JStr (fst kv)) cs)"
  by (induction cs) simp_all

lemma author_json_clean: "\<not> has_field ''password'' (author_json a)"
  by (cases a) (simp_all add: author_json_def)

lemma post_json_clean: "\<not> has_field ''password'' (post_json p)"
  by (cases "p_author p") (simp_all add: post_json_def author_json_clean)

lemma posts_json_clean: "\<not> has_field_elems ''password'' (map post_json ps)"
  by (induction ps) (simp_all add: post_json_clean)

lemma db_error_json_clean: "\<not> has_field ''password'' (db_error_json e)"
  by (simp add: db_error_json_def)

lemma message_clean: "\<not> has_field ''password'' (message m)"
  by (simp add: message_def)

lemma opt_str_clean: "\<not> has_field ''password'' (opt_str v)"
  by (cases v) (simp_all add: opt_str_def)

lemma num_json_clean: "\<not> has_field k (num_json x)"
  by (cases x) simp_all

lemma posts_body_clean: "\<not> has_field ''password'' (posts_body req r)"
  by (cases "rows r") (simp_all add: posts_body_def posts_json_clean num_json_clean)

lemma get_posts_clean:
  "list_all (\<lambda>r. \<not> has_field ''password'' (snd r)) (replies (snd (get_posts st req (start s))))"
proof -
  obtain r s' where "posts_range st (search_of req) (range_start req) (range_end req) s = (r, s')"
    by (cases "posts_range st (search_of req) (range_start req) (range_end req) s")
  from get_posts_run [OF this] show ?thesis
    by (cases "rerror r") (simp_all add: posts_body_clean db_error_json_clean)
qed

lemma register_clean:
  "list_all (\<lambda>r. \<not> has_field ''password'' (snd r)) (replies (snd (register ev st req (start s))))"
  by (auto simp: register_def io_defs start_def Let_def message_def
           split: prod.splits option.splits if_splits)

lemma login_clean:
  "list_all (\<lambda>r. \<not> has_field ''password'' (snd r)) (replies (snd (login ev st req (start s))))"
  by (auto simp: login_def io_defs start_def Let_def message_def generateTokenAndSetCookie_def
          res_cookie_def opt_str_clean
           split: prod.splits option.splits if_splits)

lemma auth_me_clean:
  "list_all (\<lambda>r. \<not> has_field ''password'' (snd r)) (replies (snd (auth_me ev st req (start s))))"
  by (auto simp: auth_me_def io_defs start_def Let_def cookie_names_clean opt_str_clean
           split: prod.splits option.splits if_splits sum.splits)

text \<open>
  C7. No reply of the register, login, /auth/me and GET /posts handlers carries a
  \<open>password\<close> field: in every reply the handler executes, no object of the body, at any
  depth, has the key \<open>password\<close>, whatever the store answers.\<close>

theorem no_password_in_replies:
  "list_all (\<lambda>r. \<not> has_field ''password'' (snd r)) (replies (snd (register ev st req (start s))))
   \<and> list_all (\<lambda>r. \<not> has_field ''password'' (snd r)) (replies (snd (login ev st req (start s))))
   \<and> list_all (\<lambda>r. \<not> has_field ''password'' (snd r)) (replies (snd (auth_me ev st req (start s))))
   \<and> list_all (\<lambda>r. \<not> has_field ''password'' (snd r)) (replies (snd (get_posts st req (start s))))"
  by (intro conjI register_clean login_clean auth_me_clean get_posts_clean)

theorem no_password_in_replies_witness:
  "replies (snd (login test_env mem_store
       (request0\<lparr>b_email := Some ''ann@example.com'', b_password := Some ''secret''\<rparr>) (start mem0)))
     = [(200, JObj [(''message'', JStr ''Login successful''),
                    (''user'', JObj [(''id'', JNum 1), (''name'', JStr ''Ann''),
                                     (''email'', JStr ''ann@example.com''),
                                     (''profile_picture'', JNull)])])]
   \<and> list_all (\<lambda>r. \<not> has_field ''password'' (snd r))
        (replies (snd (login test_env mem_store
           (request0\<lparr>b_email := Some ''ann@example.com'', b_password := Some ''secret''\<rparr>) (start mem0))))"
proof -
  let ?req = "request0\<lparr>b_email := Some ''ann@example.com'', b_password := Some ''secret''\<rparr>"
  have "users_by_email mem_store ''ann@example.com'' mem0 = (\<lparr>data = Some ann, error = None\<rparr>, mem0)"
    by (simp add: mem_store_def mem0_def tick_def single_def ann_def bob_def)
  then have "replies (snd (login test_env mem_store ?req (start mem0)))
     = [(200, JObj [(''message'', JStr ''Login successful''),
                    (''user'', JObj [(''id'', JNum 1), (''name'', JStr ''Ann''),
                                     (''email'', JStr ''ann@example.com''),
                                     (''profile_picture'', JNull)])])]"
    by (simp add: login_def io_defs start_def generateTokenAndSetCookie_def res_cookie_def
          test_env_def ann_def opt_str_def Let_def)
  moreover from no_password_in_replies [of test_env mem_store ?req mem0]
  have "list_all (\<lambda>r. \<not> has_field ''password'' (snd r))
          (replies (snd (login test_env mem_store ?req (start mem0))))" by blast
  ultimately show ?thesis by blast
qed

section \<open>The OAuth identity resolver\<close>

text \<open>The name is never falsy: the fallback of line 51 always contains a space.\<close>

lemma profile_name_truthy: "truthy (profile_name p)"
  by (cases "displayName p") (simp_all add: profile_name_def js_or_def)

text \<open>
  C5. When the first lookup finds no user and the insert fails with code 23505, the
  resolver issues exactly one more lookup by the same email (three queries in all). If
  that retry returns a user without error, the user is the result; otherwise the result is
  the insert's error, not the retry's.\<close>

theorem retry_once:
  assumes "profile_email p = Some e" and "e \<noteq> []"
    and "users_by_email st e s = (r1, s1)"
    and "data r1 = None \<or> error r1 \<noteq> None"
    and "users_insert st \<lparr>nu_name = trim (js_str (profile_name p)),
                           nu_email = trim (toLowerCase e), nu_password = None\<rparr> s1 = (r2, s2)"
    and "error r2 = Some createError" and "e_code createError = ''23505''"
    and "users_by_email st e s2 = (r3, s3)"
  shows "verify_callback st p (start s) =
           (Inr (case (data r3, error r3) of
                   (Some retryUser, None) \<Rightarrow> Inr retryUser
                 | _ \<Rightarrow> Inl (PostgrestError createError)),
            \<lparr>db = s3,
             queries = [UsersByEmail e,
                        UsersInsert \<lparr>nu_name = trim (js_str (profile_name p)),
                                     nu_email = trim (toLowerCase e), nu_password = None\<rparr>,
                        UsersByEmail e],
             replies = [], set_cookies = [], raised = []\<rparr>)"
proof -
  from assms(4) consider (absent) "data r1 = None"
    | (failed) u a where "data r1 = Some u" and "error r1 = Some a"
    by (cases "data r1"; cases "error r1") auto
  then show ?thesis
  proof cases
    case absent
    with assms(1-3,5-8) profile_name_truthy [of p] show ?thesis
      by (simp add: verify_callback_def Let_def io_defs start_def split: option.splits)
  next
    case failed
    with assms(1-3,5-8) profile_name_truthy [of p] show ?thesis
      by (simp add: verify_callback_def Let_def io_defs start_def split: option.splits)
  qed
qed

theorem retry_once_witness:
  "verify_callback mem_store carol_profile (start racing) =
     (Inr (Inr carol),
      \<lparr>db = mem0\<lparr>m_users := [ann, bob, carol]\<rparr>,
       queries = [UsersByEmail ''carol@example.com'',
                  UsersInsert \<lparr>nu_name = ''Carol'', nu_email = ''carol@example.com'', nu_password = None\<rparr>,
                  UsersByEmail ''carol@example.com''],
       replies = [], set_cookies = [], raised = []\<rparr>)"
proof -
  let ?mid = "mem0\<lparr>m_pending := [[\<lparr>nu_name = ''Carol'', nu_email = ''carol@example.com'',
                                        nu_password = None\<rparr>]]\<rparr>"
  let ?fin = "mem0\<lparr>m_users := [ann, bob, carol]\<rparr>"
  let ?none = "\<lparr>data = None :: user option, error = Some no_rows\<rparr>"
  let ?dup = "\<lparr>data = None :: user option, error = Some duplicate_key\<rparr>"
  let ?found = "\<lparr>data = Some carol, error = None\<rparr>"
  have e: "profile_email carol_profile = Some ''carol@example.com''"
    by (simp add: profile_email_def carol_profile_def)
  have n: "trim (js_str (profile_name carol_profile)) = ''Carol''"
    by (simp add: profile_name_def carol_profile_def js_or_def trim_def is_space_def)
  have l: "trim (toLowerCase ''carol@example.com'') = ''carol@example.com''"
    by (simp add: toLowerCase_def trim_def is_space_def)
  have q1: "users_by_email mem_store ''carol@example.com'' racing = (?none, ?mid)"
    by (simp add: mem_store_def racing_def mem0_def tick_def single_def ann_def bob_def)
  have q2: "users_insert mem_store \<lparr>nu_name = ''Carol'', nu_email = ''carol@example.com'',
                                      nu_password = None\<rparr> ?mid = (?dup, ?fin)"
    by (simp add: mem_store_def mem0_def tick_def insert_user_def ann_def bob_def carol_def Let_def)
  have q3: "users_by_email mem_store ''carol@example.com'' ?fin = (?found, ?fin)"
    by (simp add: mem_store_def mem0_def tick_def single_def ann_def bob_def carol_def)
  have "verify_callback mem_store carol_profile (start racing) =
           (Inr (case (data ?found, error ?found) of
                   (Some retryUser, None) \<Rightarrow> Inr retryUser
                 | _ \<Rightarrow> Inl (PostgrestError duplicate_key)),
            \<lparr>db = ?fin,
             queries = [UsersByEmail ''carol@example.com'',
                        UsersInsert \<lparr>nu_name = trim (js_str (profile_name carol_profile)),
                                     nu_email = trim (toLowerCase ''carol@example.com''), nu_password = None\<rparr>,
                        UsersByEmail ''carol@example.com''],
             replies = [], set_cookies = [], raised = []\<rparr>)"
    by (rule retry_once [where ?r1.0 = ?none and ?s1.0 = ?mid and ?r2.0 = ?dup and ?s2.0 = ?fin
               and ?r3.0 = ?found and ?s3.0 = ?fin])
       (simp_all add: e n l q1 q2 q3 duplicate_key_def)
  then show ?thesis by (simp add: n l)
qed

section \<open>Where index.js and the resolver diverge from the stated behaviour\<close>

lemma bob_token: "token test_env (bob_on pid) = Some ''token-of-2''"
proof -
  have "authorization (bob_on pid) = Some (''Bearer'' @ '' '' @ ''token-of-2'')"
    by (simp add: bob_on_def)
  then have "headerToken (bob_on pid) = Some ''token-of-2''"
    by (rule headerToken_bearer) simp_all
  then show ?thesis by (simp add: token_def js_or_def)
qed

lemma bob_authenticated:
  "authenticateToken test_env (bob_on pid) k h = k \<lparr>c_id = 2, c_email = ''bob@example.com''\<rparr> h"
  unfolding authenticateToken_def bob_token by (simp add: test_env_def)

lemma bob_on_fields:
  "param_id (bob_on pid) = pid" "b_title (bob_on pid) = Some ''Mine now''"
  "b_body (bob_on pid) = Some ''text''"
  by (simp_all add: bob_on_def)

lemma bob_matches_nothing:
  "filter (owned ''1'' 2) (m_posts (tick mem0)) = []"
  "filter (owned ''99'' 2) (m_posts (tick mem0)) = []"
  by (simp_all add: owned_def mem0_def tick_def first_post_def parseInt_1 parseInt_99)

lemma bob_refused:
  "posts_update mem_store t b ''1'' 2 mem0 = (\<lparr>data = None, error = Some no_rows\<rparr>, mem0)"
  "posts_update mem_store t b ''99'' 2 mem0 = (\<lparr>data = None, error = Some no_rows\<rparr>, mem0)"
  "posts_delete mem_store ''1'' 2 mem0 = (\<lparr>data = None, error = Some no_rows\<rparr>, mem0)"
  "posts_delete mem_store ''99'' 2 mem0 = (\<lparr>data = None, error = Some no_rows\<rparr>, mem0)"
  "posts_delete_select mem_store ''1'' 2 mem0 = (\<lparr>data = None, error = Some no_rows\<rparr>, mem0)"
  "tick mem0 = mem0"
  by (simp_all add: mem_store_def bob_matches_nothing) (simp_all add: tick_def mem0_def)

lemma update_post_refused:
  assumes "truthy (b_title req)" and "truthy (b_body req)"
    and "posts_update st (js_str (b_title req)) (js_str (b_body req)) (param_id req) (c_id usr) s = (r, s')"
    and "error r = Some e"
  shows "delivered (snd (update_post st req usr (start s)))
           = Some (400, message ''Not authorized to update this post '')"
  using assms by (simp add: update_post_def io_defs start_def delivered_def)

lemma delete_post_refused:
  assumes "posts_delete st (param_id req) (c_id usr) s = (r, s')" and "error r = Some e"
  shows "delivered (snd (delete_post st req usr (start s)))
           = Some (400, message ''not authorized to delete this post'')"
  using assms by (simp add: delete_post_def io_defs start_def delivered_def)

text \<open>The test server's handlers do answer with the messages the tests expect.\<close>

lemma test_update_post_refused:
  assumes "truthy (b_title req)" and "truthy (b_body req)"
    and "posts_update st (js_str (b_title req)) (js_str (b_body req)) (param_id req) (c_id usr) s = (r, s')"
    and "error r \<noteq> None \<or> data r = None"
  shows "test_update_post st req usr (start s) =
           (Inr (), \<lparr>db = s', queries = [PostsUpdate (js_str (b_title req)) (js_str (b_body req))
                                                       (param_id req) (c_id usr)],
                     replies = [(400, message ''Not authorized to update this post or post not found'')],
                     set_cookies = [], raised = []\<rparr>)"
  using assms by (auto simp: test_update_post_def io_defs start_def)

lemma test_delete_post_refused:
  assumes "posts_delete_select st (param_id req) (c_id usr) s = (r, s')"
    and "error r \<noteq> None \<or> data r = None"
  shows "test_delete_post st req usr (start s) =
           (Inr (), \<lparr>db = s', queries = [PostsDeleteSelect (param_id req) (c_id usr)],
                     replies = [(400, message ''not authorized to delete this post or post not found'')],
                     set_cookies = [], raised = []\<rparr>)"
  using assms by (auto simp: test_delete_post_def io_defs start_def)

text \<open>
  C1. Bob, authenticated, updates and deletes Ann's post 1 and the missing post 99. In
  index.js the four requests are answered 400, and a post of another user is answered
  exactly as a missing post, but with the messages "Not authorized to update this post "
  and "not authorized to delete this post": not the messages "... or post not found" that
  the test server's handlers give on the same requests.\<close>

theorem ownership_messages:
  "delivered (snd (put_posts test_env mem_store (bob_on ''1'') (start mem0)))
     = Some (400, message ''Not authorized to update this post '')
   \<and> delivered (snd (put_posts test_env mem_store (bob_on ''99'') (start mem0)))
     = Some (400, message ''Not authorized to update this post '')
   \<and> delivered (snd (delete_posts test_env mem_store (bob_on ''1'') (start mem0)))
     = Some (400, message ''not authorized to delete this post'')
   \<and> delivered (snd (delete_posts test_env mem_store (bob_on ''99'') (start mem0)))
     = Some (400, message ''not authorized to delete this post'')
   \<and> delivered (snd (test_put_posts test_env mem_store (bob_on ''1'') (start mem0)))
     = Some (400, message ''Not authorized to update this post or post not found'')
   \<and> delivered (snd (test_delete_posts test_env mem_store (bob_on ''1'') (start mem0)))
     = Some (400, message ''not authorized to delete this post or post not found'')"
proof -
  let ?bob = "\<lparr>c_id = 2, c_email = ''bob@example.com''\<rparr>"
  have "delivered (snd (update_post mem_store (bob_on pid) ?bob (start mem0)))
          = Some (400, message ''Not authorized to update this post '')"
    if "pid = ''1'' \<or> pid = ''99''" for pid
    using that by (intro update_post_refused [where e = no_rows and s' = mem0
          and r = "\<lparr>data = None, error = Some no_rows\<rparr>"])
      (auto simp: bob_on_fields bob_refused)
  moreover have "delivered (snd (delete_post mem_store (bob_on pid) ?bob (start mem0)))
          = Some (400, message ''not authorized to delete this post'')"
    if "pid = ''1'' \<or> pid = ''99''" for pid
    using that by (intro delete_post_refused [where e = no_rows and s' = mem0
          and r = "\<lparr>data = None, error = Some no_rows\<rparr>"])
      (auto simp: bob_on_fields bob_refused)
  moreover have "delivered (snd (test_update_post mem_store (bob_on ''1'') ?bob (start mem0)))
          = Some (400, message ''Not authorized to update this post or post not found'')"
    by (subst test_update_post_refused [where s' = mem0
          and r = "\<lparr>data = None, error = Some no_rows\<rparr>"])
      (simp_all add: bob_on_fields bob_refused delivered_def)
  moreover have "delivered (snd (test_delete_post mem_store (bob_on ''1'') ?bob (start mem0)))
          = Some (400, message ''not authorized to delete this post or post not found'')"
    by (subst test_delete_post_refused [where s' = mem0
          and r = "\<lparr>data = None, error = Some no_rows\<rparr>"])
      (simp_all add: bob_on_fields bob_refused delivered_def)
  ultimately show ?thesis
    by (simp add: put_posts_def delete_posts_def test_put_posts_def test_delete_posts_def
          bob_authenticated)
qed

theorem ownership_messages_witness:
  "delivered (snd (put_posts test_env mem_store (bob_on ''1'') (start mem0)))
     \<noteq> Some (400, message ''Not authorized to update this post or post not found'')
   \<and> delivered (snd (delete_posts test_env mem_store (bob_on ''1'') (start mem0)))
     \<noteq> Some (400, message ''not authorized to delete this post or post not found'')"
  using ownership_messages by (simp add: message_def)

text \<open>
  C3. The resolver looks the user up by the email as the provider gives it and inserts
  the lower-cased, trimmed one. For a provider email with capitals, the first login creates
  the account under the normalized email; the second login looks up the raw email again,
  finds nothing, fails the insert on the unique email, finds nothing on the retry and
  ends with the insert's error instead of logging the existing user in.\<close>

theorem lookup_by_raw_email:
  "verify_callback mem_store alice_profile (start mem0) =
     (Inr (Inr alice),
      \<lparr>db = mem0\<lparr>m_users := [ann, bob, alice]\<rparr>,
       queries = [UsersByEmail ''Alice@Example.com'',
                  UsersInsert \<lparr>nu_name = ''Alice'', nu_email = ''alice@example.com'', nu_password = None\<rparr>],
       replies = [], set_cookies = [], raised = []\<rparr>)
   \<and> verify_callback mem_store alice_profile (start (mem0\<lparr>m_users := [ann, bob, alice]\<rparr>)) =
     (Inr (Inl (PostgrestError duplicate_key)),
      \<lparr>db = mem0\<lparr>m_users := [ann, bob, alice]\<rparr>,
       queries = [UsersByEmail ''Alice@Example.com'',
                  UsersInsert \<lparr>nu_name = ''Alice'', nu_email = ''alice@example.com'', nu_password = None\<rparr>,
                  UsersByEmail ''Alice@Example.com''],
       replies = [], set_cookies = [], raised = []\<rparr>)"
proof -
  have e: "profile_email alice_profile = Some ''Alice@Example.com''"
    by (simp add: profile_email_def alice_profile_def)
  have n: "profile_name alice_profile = Some ''Alice''"
    by (simp add: profile_name_def alice_profile_def js_or_def)
  have t: "trim ''Alice'' = ''Alice''" by (simp add: trim_def is_space_def)
  have l: "trim (toLowerCase ''Alice@Example.com'') = ''alice@example.com''"
    by (simp add: toLowerCase_def trim_def is_space_def)
  show ?thesis
    by (simp add: verify_callback_def e n t l Let_def io_defs start_def mem_store_def mem0_def
          tick_def single_def insert_user_def ann_def bob_def alice_def duplicate_key_def)
qed

theorem lookup_by_raw_email_witness:
  "fst (verify_callback mem_store alice_profile (start (mem0\<lparr>m_users := [ann, bob, alice]\<rparr>)))
     \<noteq> Inr (Inr alice)"
  using lookup_by_raw_email by simp

text \<open>A profile with no email is refused, for every store and without a query.\<close>

lemma missing_email:
  "\<not> truthy (profile_email p) \<Longrightarrow>
     verify_callback st p (start s) = (Inr (Inl (Error ''No email found in Google profile'')), start s)"
  by (simp add: verify_callback_def Let_def io_defs)

lemma missing_name_unreachable:
  "fst (verify_callback st p (start s)) \<noteq> Inr (Inl (Error ''No name found in Google profile''))"
  using profile_name_truthy [of p]
  by (auto simp: verify_callback_def Let_def io_defs start_def
           split: option.splits prod.splits if_splits)

text \<open>
  C9. A profile with an email and no display name and no name parts is not refused: the
  resolver creates a user named "undefined undefined". For no store and no profile does
  the resolver end with the error "No name found in Google profile".\<close>

theorem missing_name_not_reported:
  "verify_callback mem_store nameless_profile (start mem0) =
     (Inr (Inr \<lparr>u_id = 3, u_name = ''undefined undefined'', u_email = ''dan@example.com'',
                u_password = None, u_profile_picture = None, u_created_at = ''now''\<rparr>),
      \<lparr>db = mem0\<lparr>m_users := [ann, bob,
                     \<lparr>u_id = 3, u_name = ''undefined undefined'', u_email = ''dan@example.com'',
                      u_password = None, u_profile_picture = None, u_created_at = ''now''\<rparr>]\<rparr>,
       queries = [UsersByEmail ''dan@example.com'',
                  UsersInsert \<lparr>nu_name = ''undefined undefined'', nu_email = ''dan@example.com'',
                               nu_password = None\<rparr>],
       replies = [], set_cookies = [], raised = []\<rparr>)
   \<and> (\<forall>st p s. fst (verify_callback st p (start s)) \<noteq>
                   Inr (Inl (Error ''No name found in Google profile'')))"
proof -
  have e: "profile_email nameless_profile = Some ''dan@example.com''"
    by (simp add: profile_email_def nameless_profile_def)
  have n: "profile_name nameless_profile = Some ''undefined undefined''"
    by (simp add: profile_name_def nameless_profile_def js_or_def)
  have t: "trim ''undefined undefined'' = ''undefined undefined''" by (simp add: trim_def is_space_def)
  have l: "trim (toLowerCase ''dan@example.com'') = ''dan@example.com''"
    by (simp add: toLowerCase_def trim_def is_space_def)
  have "verify_callback mem_store nameless_profile (start mem0) =
     (Inr (Inr \<lparr>u_id = 3, u_name = ''undefined undefined'', u_email = ''dan@example.com'',
                u_password = None, u_profile_picture = None, u_created_at = ''now''\<rparr>),
      \<lparr>db = mem0\<lparr>m_users := [ann, bob,
                     \<lparr>u_id = 3, u_name = ''undefined undefined'', u_email = ''dan@example.com'',
                      u_password = None, u_profile_picture = None, u_created_at = ''now''\<rparr>]\<rparr>,
       queries = [UsersByEmail ''dan@example.com'',
                  UsersInsert \<lparr>nu_name = ''undefined undefined'', nu_email = ''dan@example.com'',
                               nu_password = None\<rparr>],
       replies = [], set_cookies = [], raised = []\<rparr>)"
    by (simp add: verify_callback_def e n t l Let_def io_defs start_def mem_store_def mem0_def
          tick_def single_def insert_user_def ann_def bob_def)
  then show ?thesis using missing_name_unreachable by blast
qed

text \<open>
  For every store, the resolver's first query is the lookup by the email as the provider
  gives it.\<close>

lemma first_query_raw:
  assumes "profile_email p = Some e" and "e \<noteq> []"
  shows "index (queries (snd (verify_callback st p (start s)))) 0 = Some (UsersByEmail e)"
proof -
  obtain r1 s1 where q1: "users_by_email st e s = (r1, s1)"
    by (cases "users_by_email st e s")
  obtain r2 s2 where q2:
    "users_insert st \<lparr>nu_name = trim (js_str (profile_name p)),
                       nu_email = trim (toLowerCase e), nu_password = None\<rparr> s1 = (r2, s2)"
    by (cases "users_insert st \<lparr>nu_name = trim (js_str (profile_name p)),
                                  nu_email = trim (toLowerCase e), nu_password = None\<rparr> s1")
  obtain r3 s3 where q3: "users_by_email st e s2 = (r3, s3)"
    by (cases "users_by_email st e s2")
  from assms q1 q2 q3 profile_name_truthy [of p] show ?thesis
    by (simp add: verify_callback_def Let_def io_defs start_def split: option.splits)
qed

end
